theory Spec2Isabelle
  imports Complex_Main "HOL-Library.AList"
begin

section \<open>JavaScript values used by the executor\<close>

text \<open>
  Strings are lists of UTF-16 code units; the model keeps the code units below 256,
  which covers every header name, annotation and query parameter the executor handles.
  A JavaScript number that holds an integer is an \<open>int\<close>; \<open>NaN\<close> is \<open>None\<close>.
  An optional property (\<open>a?.b\<close>, a missing key of an object) is an \<open>option\<close>.
\<close>

definition isWhiteSpace :: "char \<Rightarrow> bool" where
  "isWhiteSpace c = (of_char c \<in> {9, 10, 11, 12, 13, 32, 160 :: nat})"

definition isDigit :: "char \<Rightarrow> bool" where
  "isDigit c = (48 \<le> (of_char c :: nat) \<and> (of_char c :: nat) \<le> 57)"

definition digitValue :: "char \<Rightarrow> int" where
  "digitValue c = int (of_char c) - 48"

text \<open>
  \<open>parseInt(s, 10)\<close>: leading white space is skipped, one sign is read, then the longest
  run of decimal digits; no digit at all gives \<open>NaN\<close>. Whatever follows the digits is
  ignored.
\<close>

definition parseInt :: "string \<Rightarrow> int option" where
  "parseInt inputString =
     (let S = dropWhile isWhiteSpace inputString;
          sign = (if S \<noteq> [] \<and> hd S = CHR ''-'' then - 1 else 1 :: int);
          S' = (if S \<noteq> [] \<and> (hd S = CHR ''+'' \<or> hd S = CHR ''-'') then tl S else S);
          Z = takeWhile isDigit S'
      in if Z = [] then None
         else Some (sign * foldl (\<lambda>acc c. 10 * acc + digitValue c) 0 Z))"

text \<open>\<open>Number.prototype.toString()\<close> of an integer: its decimal digits.\<close>

fun digitsOf :: "nat \<Rightarrow> string" where
  "digitsOf n =
     (if n < 10 then [''0123456789'' ! n]
      else digitsOf (n div 10) @ [''0123456789'' ! (n mod 10)])"

definition toString :: "int \<Rightarrow> string" where
  "toString i = (if i < 0 then CHR ''-'' # digitsOf (nat (- i)) else digitsOf (nat i))"

text \<open>\<open>x || d\<close> on an optional string: the default replaces a missing or empty value.\<close>

definition orDefault :: "string option \<Rightarrow> string \<Rightarrow> string" where
  "orDefault x d = (case x of None \<Rightarrow> d | Some v \<Rightarrow> if v = [] then d else v)"

text \<open>Truthiness of an optional string: present and not empty.\<close>

definition truthy :: "string option \<Rightarrow> bool" where
  "truthy x = (case x of None \<Rightarrow> False | Some v \<Rightarrow> v \<noteq> [])"

text \<open>
  \<open>String.prototype.toLowerCase\<close> on code units below 256: the letters A to Z and the
  accented capitals from 192 to 222 (but the multiplication sign, 215) move up by 32.
\<close>

definition toLowerCaseChar :: "char \<Rightarrow> char" where
  "toLowerCaseChar c =
     (let n = (of_char c :: nat) in
      if (65 \<le> n \<and> n \<le> 90) \<or> (192 \<le> n \<and> n \<le> 222 \<and> n \<noteq> 215) then char_of (n + 32) else c)"

definition toLowerCase :: "string \<Rightarrow> string" where
  "toLowerCase s = map toLowerCaseChar s"

definition startsWith :: "string \<Rightarrow> string \<Rightarrow> bool" where
  "startsWith s searchString = (take (length searchString) s = searchString)"

text \<open>The comparison \<open>a < b\<close> of two strings: lexicographic on the code units.\<close>

fun stringLess :: "string \<Rightarrow> string \<Rightarrow> bool" where
  "stringLess [] [] = False"
| "stringLess [] (y # ys) = True"
| "stringLess (x # xs) [] = False"
| "stringLess (x # xs) (y # ys) =
     ((of_char x :: nat) < of_char y \<or> (x = y \<and> stringLess xs ys))"

section \<open>Kubernetes objects and calls\<close>

text \<open>
  The fields of a \<open>V1Deployment\<close> the executor reads: \<open>metadata?.name\<close>,
  \<open>metadata?.labels\<close>, \<open>metadata?.annotations\<close>, \<open>spec?.replicas\<close> and
  \<open>status?.readyReplicas\<close>.
\<close>

record deployment =
  metadata_name :: "string option"
  metadata_labels :: "string \<rightharpoonup> string"
  metadata_annotations :: "string \<rightharpoonup> string"
  spec_replicas :: "int option"
  status_readyReplicas :: "int option"

text \<open>A call of the Kubernetes client either returns or throws.\<close>

datatype 'a api_result = Returned 'a | Threw string

record json_patch =
  patch_op :: string
  patch_path :: string
  patch_value :: int

text \<open>utils/errors.ts\<close>

record error_body =
  err_type :: string
  err_message :: string
  err_code :: nat

definition GENERAL_UNKNOWN :: string where
  "GENERAL_UNKNOWN = ''general_unknown''"

definition EXECUTION_BAD_REQUEST :: string where
  "EXECUTION_BAD_REQUEST = ''execution_bad_request''"

definition RUNTIME_CONFLICT :: string where
  "RUNTIME_CONFLICT = ''runtime_conflict''"

definition RUNTIME_TIMEOUT :: string where
  "RUNTIME_TIMEOUT = ''runtime_timeout''"

text \<open>The third parameter of \<open>createErrorResponse\<close> defaults to 500.\<close>

definition createErrorResponse :: "string \<Rightarrow> string \<Rightarrow> nat option \<Rightarrow> error_body" where
  "createErrorResponse type message code =
     \<lparr>err_type = type, err_message = message,
      err_code = (case code of None \<Rightarrow> 500 | Some c \<Rightarrow> c)\<rparr>"

text \<open>What a handler hands to \<open>c.json\<close>: the HTTP status, extra headers and the body.\<close>

record 'b http_response =
  http_status :: nat
  http_headers :: "(string \<times> string) list"
  http_body :: 'b

text \<open>utils/runtime.ts\<close>

definition getDeploymentName :: "string \<Rightarrow> string" where
  "getDeploymentName runtimeId = ''dep-'' @ runtimeId"

text \<open>
  The calls a handler or the maintenance loop makes on the cluster, in the order it makes
  them. Functions that talk to the cluster return this list next to their result.
\<close>

datatype k8s_call =
    ReadDeployment string
  | PatchDeployment string "json_patch list"
  | CreateCall string string
  | DeleteCall string string

section \<open>POST /v1/runtimes: the duplicate check\<close>

text \<open>
  routes/runtimes.ts, the create handler up to the point where construction begins.
  The request body is reduced to the two fields examined there. The handler reads the
  Deployment twice, once in \<open>runtimeExists\<close> and once in \<open>getRuntimeStatus\<close>; each
  read is a call of its own and may answer differently, so the handler takes one reader
  per call. \<open>proceed\<close> stands for the rest of the handler (secret generation, build Job,
  Service and Deployment creation), entered only when no Deployment was found.
\<close>

record create_request =
  req_runtimeId :: "string option"
  req_image :: "string option"

record runtime_status =
  rs_status :: string
  rs_initialised :: nat
  rs_listening :: nat
  rs_created :: "int option"
  rs_updated :: "int option"

definition runtimeExists :: "(string \<Rightarrow> deployment api_result) \<Rightarrow> string \<Rightarrow> bool" where
  "runtimeExists readNamespacedDeployment runtimeId =
     (case readNamespacedDeployment (getDeploymentName runtimeId) of
        Returned deployment \<Rightarrow> True
      | Threw e \<Rightarrow> False)"

definition getRuntimeStatus ::
  "(string \<Rightarrow> deployment api_result) \<Rightarrow> string \<Rightarrow> runtime_status option" where
  "getRuntimeStatus readNamespacedDeployment runtimeId =
     (case readNamespacedDeployment (getDeploymentName runtimeId) of
        Returned deployment \<Rightarrow>
          (let annotations = metadata_annotations deployment in
           Some \<lparr>rs_status = orDefault (annotations ''appwrite.io/status'') ''pending'',
                 rs_initialised = (if annotations ''appwrite.io/initialised'' = Some ''1'' then 1 else 0),
                 rs_listening = (if annotations ''appwrite.io/listening'' = Some ''1'' then 1 else 0),
                 rs_created = parseInt (orDefault (annotations ''appwrite.io/created'') ''0''),
                 rs_updated = parseInt (orDefault (annotations ''appwrite.io/updated'') ''0'')\<rparr>)
      | Threw e \<Rightarrow> None)"

definition createRuntime ::
  "(string \<Rightarrow> deployment api_result) \<Rightarrow> (string \<Rightarrow> deployment api_result) \<Rightarrow>
   ('a create_request_scheme \<Rightarrow> (error_body + 'r) http_response \<times> k8s_call list) \<Rightarrow>
   'a create_request_scheme \<Rightarrow> (error_body + 'r) http_response \<times> k8s_call list" where
  "createRuntime readFirst readSecond proceed req =
     (if \<not> truthy (req_runtimeId req) \<or> \<not> truthy (req_image req) then
        (\<lparr>http_status = 400, http_headers = [],
          http_body = Inl (createErrorResponse EXECUTION_BAD_REQUEST
            ''Missing required fields: runtimeId, image'' None)\<rparr>, [])
      else
        let runtimeId = orDefault (req_runtimeId req) [];
            name = getDeploymentName runtimeId
        in if runtimeExists readFirst runtimeId then
             (case getRuntimeStatus readSecond runtimeId of
                Some status \<Rightarrow>
                  if rs_status status = ''pending'' then
                    (\<lparr>http_status = 409, http_headers = [],
                      http_body = Inl (createErrorResponse RUNTIME_CONFLICT
                        ''A runtime with the same ID is already being created. Attempt an execution soon.''
                        None)\<rparr>,
                     [ReadDeployment name, ReadDeployment name])
                  else
                    (\<lparr>http_status = 409, http_headers = [],
                      http_body = Inl (createErrorResponse RUNTIME_CONFLICT ''Runtime already exists'' None)\<rparr>,
                     [ReadDeployment name, ReadDeployment name])
              | None \<Rightarrow>
                  (\<lparr>http_status = 409, http_headers = [],
                    http_body = Inl (createErrorResponse RUNTIME_CONFLICT ''Runtime already exists'' None)\<rparr>,
                   [ReadDeployment name, ReadDeployment name]))
           else
             (let (response, calls) = proceed req in (response, ReadDeployment name # calls)))"

definition conflictMessage :: "(error_body + 'r) http_response \<Rightarrow> string option" where
  "conflictMessage response =
     (case http_body response of
        Inl e \<Rightarrow> if err_type e = ''runtime_conflict'' then Some (err_message e) else None
      | Inr r \<Rightarrow> None)"

section \<open>GET /v1/runtimes: the page limit\<close>

text \<open>
  routes/runtimes.ts, the list handler. \<open>listLimit\<close> is the computation of \<open>limit\<close>
  from the query parameter (absent is \<open>None\<close>).
\<close>

definition listLimit :: "string option \<Rightarrow> int" where
  "listLimit limitParam =
     (let defaultLimit = 25; maxLimit = 100 in
      case limitParam of
        None \<Rightarrow> defaultLimit
      | Some p \<Rightarrow>
          if p = [] then defaultLimit
          else (case parseInt p of
                  None \<Rightarrow> defaultLimit
                | Some parsedLimit \<Rightarrow>
                    if parsedLimit > 0 then min parsedLimit maxLimit else defaultLimit))"

text \<open>The list the cluster returns: items, continue token and remaining item count.\<close>

record deployment_list =
  list_items :: "deployment list"
  list_continue :: "string option"
  list_remainingItemCount :: "int option"

text \<open>
  The handler. \<open>listNamespacedDeployment\<close> is the cluster call, given the limit and the
  continue token; \<open>project\<close> is the mapping of one Deployment to its descriptor (it
  divides parsed floating-point timestamps by 1000 and plays no part in the limit).
  A throwing call is answered with status 500 and no pagination header.
\<close>

definition listRuntimes ::
  "(int \<Rightarrow> string option \<Rightarrow> deployment_list api_result) \<Rightarrow> (deployment \<Rightarrow> 'r) \<Rightarrow>
   string option \<Rightarrow> string option \<Rightarrow> (error_body + 'r list) http_response" where
  "listRuntimes listNamespacedDeployment project limitParam continueParam =
     (let limit = listLimit limitParam in
      case listNamespacedDeployment limit continueParam of
        Returned deploymentList \<Rightarrow>
          \<lparr>http_status = 200,
           http_headers =
             [(''X-PAGINATION-LIMIT'', toString limit),
              (''X-PAGINATION-CONTINUE'',
                 (case list_continue deploymentList of None \<Rightarrow> [] | Some t \<Rightarrow> t)),
              (''X-PAGINATION-REMAINING'',
                 (case list_remainingItemCount deploymentList of
                    None \<Rightarrow> [] | Some n \<Rightarrow> toString n))],
           http_body = Inr (map project (list_items deploymentList))\<rparr>
      | Threw e \<Rightarrow>
          \<lparr>http_status = 500, http_headers = [],
           http_body = Inl (createErrorResponse GENERAL_UNKNOWN ''Failed to list runtimes'' None)\<rparr>)"

text \<open>The interval clamp the specification speaks of.\<close>

definition clampTo :: "int \<Rightarrow> int \<Rightarrow> int \<Rightarrow> int" where
  "clampTo lo hi x = max lo (min hi x)"

section \<open>Invocation: cold start\<close>

text \<open>
  routes/runtimes.ts, the execution handler from the replicas check to the readiness
  verdict. Time is the number of milliseconds since \<open>startTime\<close> was taken.
  \<open>readNamespacedDeployment name t\<close> is the outcome of a read begun at time \<open>t\<close>
  together with the milliseconds the call took; \<open>delay(500)\<close> takes 500 ms. The events
  are the patch, the reads (with the time at which each began) and the delays, in order.
  A throwing cluster call is not caught in this part of the handler.
\<close>

datatype cold_event = Patched string "json_patch list" | Polled string nat | Delayed nat

datatype poll_end = PodReady | WindowExpired | PollThrew string

datatype 'a step = Continue | Respond 'a | Uncaught string

definition scaleUpPatch :: "json_patch list" where
  "scaleUpPatch = [\<lparr>patch_op = ''replace'', patch_path = ''/spec/replicas'', patch_value = 1\<rparr>]"

definition readyTimeout :: nat where
  "readyTimeout = 60 * 1000"

function pollReady ::
  "(string \<Rightarrow> nat \<Rightarrow> deployment api_result \<times> nat) \<Rightarrow> string \<Rightarrow> nat \<Rightarrow> poll_end \<times> cold_event list" where
  "pollReady readNamespacedDeployment name elapsed =
     (if elapsed < readyTimeout then
        (case readNamespacedDeployment name elapsed of
           (Threw e, ms) \<Rightarrow> (PollThrew e, [Polled name elapsed])
         | (Returned currentDeployment, ms) \<Rightarrow>
             if status_readyReplicas currentDeployment = Some 1
             then (PodReady, [Polled name elapsed])
             else (let (r, events) = pollReady readNamespacedDeployment name (elapsed + ms + 500)
                   in (r, Polled name elapsed # Delayed 500 # events)))
      else (WindowExpired, []))"
  by pat_completeness auto
termination
  by (relation "measure (\<lambda>(rd, name, elapsed). readyTimeout - elapsed)") auto

declare pollReady.simps [simp del]

definition coldStart ::
  "(string \<Rightarrow> json_patch list \<Rightarrow> unit api_result) \<Rightarrow>
   (string \<Rightarrow> nat \<Rightarrow> deployment api_result \<times> nat) \<Rightarrow> string \<Rightarrow> deployment \<Rightarrow>
   (error_body http_response) step \<times> cold_event list" where
  "coldStart patchNamespacedDeployment readNamespacedDeployment runtimeId deployment =
     (let currentReplicas = (case spec_replicas deployment of None \<Rightarrow> 0 | Some n \<Rightarrow> n);
          name = getDeploymentName runtimeId;
          (patch, patchEvents) =
            (if currentReplicas = 0
             then (patchNamespacedDeployment name scaleUpPatch, [Patched name scaleUpPatch])
             else (Returned (), []))
      in case patch of
           Threw e \<Rightarrow> (Uncaught e, patchEvents)
         | Returned u \<Rightarrow>
             (let (r, events) = pollReady readNamespacedDeployment name 0 in
              (case r of
                 PodReady \<Rightarrow> Continue
               | PollThrew e \<Rightarrow> Uncaught e
               | WindowExpired \<Rightarrow>
                   Respond \<lparr>http_status = 504, http_headers = [],
                            http_body = createErrorResponse RUNTIME_TIMEOUT
                              ''Runtime failed to become ready in time'' None\<rparr>,
               patchEvents @ events)))"

fun isPatched :: "cold_event \<Rightarrow> bool" where
  "isPatched (Patched n b) = True"
| "isPatched _ = False"

fun pollTime :: "cold_event \<Rightarrow> nat option" where
  "pollTime (Polled n t) = Some t"
| "pollTime _ = None"

section \<open>Invocation: waiting for the pod to listen\<close>

text \<open>
  utils/runtime.ts, \<open>checkPodListening\<close>. \<open>fetch url t\<close> is what becomes of a GET begun
  \<open>t\<close> ms after \<open>startTime\<close>: a response (status, ms until it arrives) or a rejection
  (ms until it fails). The abort timer fires 2000 ms after the attempt began, so only a
  response that arrives earlier resolves the \<open>fetch\<close>; every other attempt throws into
  the empty \<open>catch\<close> after at most 2000 ms. The loop returns its verdict and the list of
  attempts it made, each with the time at which it began.
\<close>

datatype fetch_outcome = Responded nat nat | Rejected nat

fun answered :: "fetch_outcome \<Rightarrow> bool" where
  "answered (Responded st ms) = (ms < 2000)"
| "answered (Rejected ms) = False"

fun attemptDuration :: "fetch_outcome \<Rightarrow> nat" where
  "attemptDuration (Responded st ms) = min ms 2000"
| "attemptDuration (Rejected ms) = min ms 2000"

function listenLoop ::
  "(string \<Rightarrow> nat \<Rightarrow> fetch_outcome) \<Rightarrow> string \<Rightarrow> rat \<Rightarrow> nat \<Rightarrow> bool \<times> (nat \<times> fetch_outcome) list" where
  "listenLoop fetch url timeout elapsed =
     (if of_nat elapsed < timeout * 1000 then
        (let response = fetch url elapsed in
         if answered response then (True, [(elapsed, response)])
         else (let (r, attempts) = listenLoop fetch url timeout (elapsed + attemptDuration response + 500)
               in (r, (elapsed, response) # attempts)))
      else (False, []))"
  by pat_completeness auto
termination
proof (relation "measure (\<lambda>(fetch, url, timeout, elapsed). nat \<lceil>timeout * 1000\<rceil> - elapsed)")
  show "wf (measure (\<lambda>(fetch, url, timeout, elapsed). nat \<lceil>timeout * 1000\<rceil> - elapsed))"
    by simp
next
  fix fetch :: "string \<Rightarrow> nat \<Rightarrow> fetch_outcome" and url :: string and timeout :: rat
    and elapsed :: nat and x
  assume w: "of_nat elapsed < timeout * 1000"
  then have "int elapsed < \<lceil>timeout * 1000\<rceil>"
    by (simp add: less_ceiling_iff)
  then show "((fetch, url, timeout, elapsed + attemptDuration x + 500), (fetch, url, timeout, elapsed))
      \<in> measure (\<lambda>(fetch, url, timeout, elapsed). nat \<lceil>timeout * 1000\<rceil> - elapsed)"
    by simp
qed

definition checkPodListening :: "(string \<Rightarrow> nat \<Rightarrow> fetch_outcome) \<Rightarrow> string \<Rightarrow> rat \<Rightarrow> bool" where
  "checkPodListening fetch podIP timeout =
     fst (listenLoop fetch (''http://'' @ podIP @ '':3000'') timeout 0)"

definition listenAttempts :: "(string \<Rightarrow> nat \<Rightarrow> fetch_outcome) \<Rightarrow> string \<Rightarrow> rat \<Rightarrow> (nat \<times> fetch_outcome) list" where
  "listenAttempts fetch podIP timeout =
     snd (listenLoop fetch (''http://'' @ podIP @ '':3000'') timeout 0)"

declare listenLoop.simps [simp del]

text \<open>The same pod answering with other status codes.\<close>

fun recode :: "(nat \<Rightarrow> nat) \<Rightarrow> fetch_outcome \<Rightarrow> fetch_outcome" where
  "recode f (Responded st ms) = Responded (f st) ms"
| "recode f (Rejected ms) = Rejected ms"

section \<open>Invocation: the surfaced response headers\<close>

text \<open>
  routes/runtimes.ts. \<open>collectHeader\<close> is the callback of
  \<open>executionResponse.headers.forEach\<close>, applied to the headers in the order they are
  iterated; \<open>responseHeaders\<close> is an object, modelled as an association list in insertion
  order. The test \<open>if (responseHeaders[lowerKey])\<close> is one of truthiness: an array is
  truthy, a string is truthy when it is not empty. Header names that every object
  inherits as properties (\<open>constructor\<close>, \<open>__proto__\<close>) are outside the model.
\<close>

datatype header_value = Single string | Multi "string list"

definition collectHeader ::
  "(string \<times> header_value) list \<Rightarrow> string \<times> string \<Rightarrow> (string \<times> header_value) list" where
  "collectHeader responseHeaders = (\<lambda>(key, value).
     let lowerKey = toLowerCase key in
     if startsWith lowerKey ''x-open-runtimes-'' then responseHeaders
     else
       (case map_of responseHeaders lowerKey of
          Some (Multi values) \<Rightarrow> AList.update lowerKey (Multi (values @ [value])) responseHeaders
        | Some (Single previous) \<Rightarrow>
            if previous \<noteq> []
            then AList.update lowerKey (Multi [previous, value]) responseHeaders
            else AList.update lowerKey (Single value) responseHeaders
        | None \<Rightarrow> AList.update lowerKey (Single value) responseHeaders))"

definition collectHeaders :: "(string \<times> string) list \<Rightarrow> (string \<times> header_value) list" where
  "collectHeaders received = foldl collectHeader [] received"

definition compatibleHeaders ::
  "string option \<Rightarrow> (string \<times> header_value) list \<Rightarrow> (string \<times> header_value) list" where
  "compatibleHeaders formatHeader headers =
     (let responseFormat = orDefault formatHeader ''0.10.0'' in
      if stringLess responseFormat ''0.11.0'' then
        map (\<lambda>(key, value).
               (key, case value of
                       Multi values \<Rightarrow> Single (if values = [] then [] else last values)
                     | Single v \<Rightarrow> Single v)) headers
      else headers)"

definition surfacedKey :: "string \<Rightarrow> bool" where
  "surfacedKey k = (toLowerCase k = k \<and> \<not> startsWith k ''x-open-runtimes-'')"

section \<open>Invocation: execution logs of a v5 runtime\<close>

text \<open>
  routes/runtimes.ts. \<open>readFileFromPod\<close> returns the decoded text of the file or throws;
  \<open>length\<close> and \<open>slice\<close> count code units of that text. \<open>limitLogSize\<close> is the
  truncation applied to each of the two files, \<open>kind\<close> being \<open>Log\<close> or \<open>Error\<close>.
\<close>

definition MAX_LOG_SIZE :: nat where
  "MAX_LOG_SIZE = 1048576"

definition limitLogSize :: "string \<Rightarrow> string \<Rightarrow> string" where
  "limitLogSize kind content =
     (if length content > MAX_LOG_SIZE
      then take MAX_LOG_SIZE content @ [CHR 0x0A] @ kind @ '' file has been truncated to 1.00MB.''
      else content)"

definition extractLogs ::
  "(string \<Rightarrow> string \<Rightarrow> string \<Rightarrow> string api_result) \<Rightarrow> string \<Rightarrow> string \<Rightarrow> bool \<Rightarrow>
   string option \<Rightarrow> string \<times> string" where
  "extractLogs readFileFromPod version logId logging podName =
     (if version = ''v5'' \<and> logId \<noteq> [] \<and> logging \<and> truthy podName then
        (let pod = orDefault podName [];
             logFile = ''/mnt/logs/'' @ logId @ ''_logs.log'';
             errorFile = ''/mnt/logs/'' @ logId @ ''_errors.log'';
             logs = (case readFileFromPod pod ''runtime-container'' logFile of
                       Returned logContent \<Rightarrow> limitLogSize ''Log'' logContent
                     | Threw e \<Rightarrow> []);
             errors = (case readFileFromPod pod ''runtime-container'' errorFile of
                         Returned errorContent \<Rightarrow> limitLogSize ''Error'' errorContent
                       | Threw e \<Rightarrow> [])
         in (logs, errors))
      else ([], []))"

text \<open>
  The number of bytes of the UTF-8 encoding of a text whose code units are below 256:
  one byte below 128, two from 128 on.
\<close>

definition utf8Length :: "string \<Rightarrow> nat" where
  "utf8Length s = sum_list (map (\<lambda>c. if (of_char c :: nat) < 128 then 1 else 2) s)"

section \<open>The maintenance loop\<close>

text \<open>
  maintenance/loop.ts. \<open>INACTIVE_THRESHOLD\<close> is computed from the environment variable
  (absent is \<open>None\<close>). One cycle is modelled from the result of \<open>acquireLease\<close> on. Each
  listed Deployment comes with what the loop observes when it reaches it: the value of
  \<open>shutdownRequested\<close>, the value of \<open>Date.now()\<close>, and the outcome of the patch call
  should one be issued. A throwing patch leaves the \<open>for\<close> loop: the \<open>try\<close> encloses
  the whole loop.
\<close>

definition INACTIVE_THRESHOLD :: "string option \<Rightarrow> int option" where
  "INACTIVE_THRESHOLD env = map_option (\<lambda>n. n * 1000) (parseInt (orDefault env ''300''))"

record item_env =
  shutdownRequested :: bool
  dateNow :: int
  patchOutcome :: "unit api_result"

datatype cycle_end = Completed | Stopped | Failed string | Skipped

definition isInactive :: "int option \<Rightarrow> int \<Rightarrow> int option \<Rightarrow> bool" where
  "isInactive threshold now lastExecutionTime =
     (case (lastExecutionTime, threshold) of
        (Some l, Some T) \<Rightarrow> now - l > T
      | _ \<Rightarrow> False)"

definition lastExecutionTimeOf :: "deployment \<Rightarrow> int option" where
  "lastExecutionTimeOf dep =
     (let lastExecutionTimeStr = metadata_annotations dep ''appwrite.io/last-execution-time''
      in case lastExecutionTimeStr of
           None \<Rightarrow> Some 0
         | Some str \<Rightarrow> if str = [] then Some 0 else parseInt str)"

definition scaleDownPatch :: "json_patch list" where
  "scaleDownPatch = [\<lparr>patch_op = ''replace'', patch_path = ''/spec/replicas'', patch_value = 0\<rparr>]"

definition scaleDownTarget :: "int option \<Rightarrow> int \<Rightarrow> deployment \<Rightarrow> string option" where
  "scaleDownTarget threshold now dep =
     (let runtimeId = metadata_labels dep ''appwrite.io/runtime-id'';
          deploymentName = metadata_name dep
      in if \<not> truthy runtimeId \<or> \<not> truthy deploymentName \<or> spec_replicas dep \<noteq> Some 1 then None
         else if isInactive threshold now (lastExecutionTimeOf dep) then deploymentName
         else None)"

fun reapItems :: "int option \<Rightarrow> (deployment \<times> item_env) list \<Rightarrow> k8s_call list \<times> cycle_end" where
  "reapItems threshold [] = ([], Completed)"
| "reapItems threshold ((dep, env) # rest) =
     (if shutdownRequested env then ([], Stopped)
      else case scaleDownTarget threshold (dateNow env) dep of
             None \<Rightarrow> reapItems threshold rest
           | Some deploymentName \<Rightarrow>
               (case patchOutcome env of
                  Threw e \<Rightarrow> ([PatchDeployment deploymentName scaleDownPatch], Failed e)
                | Returned u \<Rightarrow>
                    (let (calls, fin) = reapItems threshold rest
                     in (PatchDeployment deploymentName scaleDownPatch # calls, fin))))"

definition maintenanceCycle ::
  "int option \<Rightarrow> bool \<Rightarrow> (deployment \<times> item_env) list api_result \<Rightarrow> k8s_call list \<times> cycle_end" where
  "maintenanceCycle threshold leaseAcquired deploymentList =
     (if \<not> leaseAcquired then ([], Skipped)
      else case deploymentList of
             Threw e \<Rightarrow> ([], Failed e)
           | Returned items \<Rightarrow> reapItems threshold items)"

section \<open>Tailing a file in a pod\<close>

text \<open>
  utils/pod-exec.ts, \<open>tailFileInPod\<close>. The exec connection delivers stdout chunks, stderr
  chunks and at most one status while it is open, and it may close (the pod is deleted,
  the connection drops); the caller may call the returned cleanup function at any moment.
  The model runs through these events in the order they happen, starting with the
  connection open, and records the calls of \<open>onData\<close> and \<open>onError\<close>. The body of the
  cleanup function is empty.
\<close>

datatype exec_event =
    StdoutChunk string
  | StderrChunk string
  | StatusCallback string
  | ConnectionClosed
  | CleanupCalled

record tail_state =
  connectionOpen :: bool
  onData_calls :: "string list"
  onError_calls :: "string list"

fun tailEvent :: "bool \<Rightarrow> tail_state \<Rightarrow> exec_event \<Rightarrow> tail_state" where
  "tailEvent hasOnError s (StdoutChunk chunk) =
     (if connectionOpen s then s\<lparr>onData_calls := onData_calls s @ [chunk]\<rparr> else s)"
| "tailEvent hasOnError s (StderrChunk chunk) =
     (if connectionOpen s \<and> hasOnError
      then s\<lparr>onError_calls := onError_calls s @ [chunk]\<rparr> else s)"
| "tailEvent hasOnError s (StatusCallback st) =
     (if connectionOpen s \<and> st \<noteq> ''Success'' \<and> hasOnError
      then s\<lparr>onError_calls := onError_calls s @ [''Tail command failed: '' @ st]\<rparr> else s)"
| "tailEvent hasOnError s ConnectionClosed = s\<lparr>connectionOpen := False\<rparr>"
| "tailEvent hasOnError s CleanupCalled = s"

definition tailFileInPod :: "bool \<Rightarrow> exec_event list \<Rightarrow> tail_state" where
  "tailFileInPod hasOnError events =
     foldl (tailEvent hasOnError)
       \<lparr>connectionOpen = True, onData_calls = [], onError_calls = []\<rparr> events"

fun stdoutOf :: "exec_event \<Rightarrow> string option" where
  "stdoutOf (StdoutChunk chunk) = Some chunk"
| "stdoutOf _ = None"

section \<open>Objects used in the examples\<close>

text \<open>
  A runtime Deployment with one replica, named \<open>n\<close>, with or without the runtime-id
  label and with or without a last-execution-time annotation; and an observation of the
  maintenance loop.
\<close>

definition warmDeployment :: "string \<Rightarrow> bool \<Rightarrow> string option \<Rightarrow> deployment" where
  "warmDeployment n labelled lastExecution =
     \<lparr>metadata_name = Some n,
      metadata_labels =
        (if labelled then [''appwrite.io/role'' \<mapsto> ''runtime'', ''appwrite.io/runtime-id'' \<mapsto> drop 4 n]
         else [''appwrite.io/role'' \<mapsto> ''runtime'']),
      metadata_annotations =
        (case lastExecution of
           None \<Rightarrow> [''appwrite.io/status'' \<mapsto> ''Up 1s'']
         | Some t \<Rightarrow> [''appwrite.io/status'' \<mapsto> ''Up 1s'', ''appwrite.io/last-execution-time'' \<mapsto> t]),
      spec_replicas = Some 1,
      status_readyReplicas = Some 1\<rparr>"

definition observedAt :: "int \<Rightarrow> bool \<Rightarrow> unit api_result \<Rightarrow> item_env" where
  "observedAt now stop outcome =
     \<lparr>shutdownRequested = stop, dateNow = now, patchOutcome = outcome\<rparr>"

text \<open>
  A cluster whose reads take 1.6 s each and report the pod ready from 58.8 s on.
\<close>

definition slowlyReady :: "string \<Rightarrow> nat \<Rightarrow> deployment api_result \<times> nat" where
  "slowlyReady name s =
     (Returned (if s < 58800
                then warmDeployment name True None\<lparr>status_readyReplicas := None\<rparr>
                else warmDeployment name True None), 1600)"

lemmas parseInt_eval = parseInt_def isWhiteSpace_def isDigit_def digitValue_def

section \<open>Duplicate create (C1)\<close>

text \<open>
  C1 (counterexample). A create request that names an existing Deployment but carries no
  image is answered with 400 \<open>execution_bad_request\<close>, not with 409: the check of the
  required fields comes first.
\<close>

theorem C1_missing_image_counterexample:
  "runtimeExists (\<lambda>n. Returned (warmDeployment n True None)) ''r3''
   \<and> createRuntime (\<lambda>n. Returned (warmDeployment n True None))
        (\<lambda>n. Returned (warmDeployment n True None))
        (\<lambda>req. (\<lparr>http_status = 201, http_headers = [], http_body = Inr ()\<rparr>, []))
        \<lparr>req_runtimeId = Some ''r3'', req_image = None\<rparr>
      = (\<lparr>http_status = 400, http_headers = [],
          http_body = Inl \<lparr>err_type = ''execution_bad_request'',
            err_message = ''Missing required fields: runtimeId, image'', err_code = 500\<rparr>\<rparr>, [])"
  by (simp add: createRuntime_def runtimeExists_def truthy_def createErrorResponse_def
      EXECUTION_BAD_REQUEST_def)

text \<open>
  C1 (amended). For every create request with a non-empty runtimeId and image whose
  Deployment \<open>dep-{id}\<close> is read successfully, the answer is HTTP 409 with error kind
  \<open>runtime_conflict\<close>, the only cluster calls are the two reads (nothing is created and
  the rest of the handler is not entered); when the status annotation then read is
  \<open>pending\<close> the message is the creation-in-progress one, and when it is another
  non-empty status the message is \<open>Runtime already exists\<close>.
\<close>

theorem C1_duplicate_create:
  "req_runtimeId req = Some rid \<and> rid \<noteq> [] \<and> truthy (req_image req)
   \<and> readFirst (''dep-'' @ rid) = Returned existing
   \<longrightarrow>
     http_status (fst (createRuntime readFirst readSecond proceed req)) = 409
     \<and> conflictMessage (fst (createRuntime readFirst readSecond proceed req)) \<noteq> None
     \<and> snd (createRuntime readFirst readSecond proceed req)
         = [ReadDeployment (''dep-'' @ rid), ReadDeployment (''dep-'' @ rid)]
     \<and> (readSecond (''dep-'' @ rid) = Returned current
          \<and> metadata_annotations current ''appwrite.io/status'' = Some ''pending''
        \<longrightarrow> conflictMessage (fst (createRuntime readFirst readSecond proceed req))
             = Some ''A runtime with the same ID is already being created. Attempt an execution soon.'')
     \<and> (readSecond (''dep-'' @ rid) = Returned current
          \<and> metadata_annotations current ''appwrite.io/status'' = Some st
          \<and> st \<noteq> [] \<and> st \<noteq> ''pending''
        \<longrightarrow> conflictMessage (fst (createRuntime readFirst readSecond proceed req))
             = Some ''Runtime already exists'')"
  by (auto simp: createRuntime_def runtimeExists_def getRuntimeStatus_def getDeploymentName_def
      truthy_def orDefault_def conflictMessage_def createErrorResponse_def RUNTIME_CONFLICT_def
      Let_def split: option.splits api_result.splits)

text \<open>
  C1 (witness): runtime \<open>r3\<close> exists; once its status is \<open>pending\<close>, once \<open>Up 1s\<close>.
\<close>

theorem C1_duplicate_create_witness:
  "http_status (fst (createRuntime
      (\<lambda>n. Returned (warmDeployment n True None))
      (\<lambda>n. Returned (warmDeployment n True None\<lparr>metadata_annotations := [''appwrite.io/status'' \<mapsto> ''pending'']\<rparr>))
      (\<lambda>req. (\<lparr>http_status = 201, http_headers = [], http_body = Inr ()\<rparr>, [CreateCall ''Deployment'' ''dep-r3'']))
      \<lparr>req_runtimeId = Some ''r3'', req_image = Some ''img:v5''\<rparr>)) = 409
   \<and> conflictMessage (fst (createRuntime
      (\<lambda>n. Returned (warmDeployment n True None))
      (\<lambda>n. Returned (warmDeployment n True None\<lparr>metadata_annotations := [''appwrite.io/status'' \<mapsto> ''pending'']\<rparr>))
      (\<lambda>req. (\<lparr>http_status = 201, http_headers = [], http_body = Inr ()\<rparr>, [CreateCall ''Deployment'' ''dep-r3'']))
      \<lparr>req_runtimeId = Some ''r3'', req_image = Some ''img:v5''\<rparr>))
     = Some ''A runtime with the same ID is already being created. Attempt an execution soon.''
   \<and> createRuntime
      (\<lambda>n. Returned (warmDeployment n True None))
      (\<lambda>n. Returned (warmDeployment n True None))
      (\<lambda>req. (\<lparr>http_status = 201, http_headers = [], http_body = Inr ()\<rparr>, [CreateCall ''Deployment'' ''dep-r3'']))
      \<lparr>req_runtimeId = Some ''r3'', req_image = Some ''img:v5''\<rparr>
     = (\<lparr>http_status = 409, http_headers = [],
         http_body = Inl \<lparr>err_type = ''runtime_conflict'', err_message = ''Runtime already exists'',
           err_code = 500\<rparr>\<rparr>,
        [ReadDeployment ''dep-r3'', ReadDeployment ''dep-r3''])"
proof -
  let ?up = "\<lambda>n. Returned (warmDeployment n True None)"
  let ?pending = "\<lambda>n. Returned (warmDeployment n True None
      \<lparr>metadata_annotations := [''appwrite.io/status'' \<mapsto> ''pending'']\<rparr>)"
  let ?rest = "\<lambda>req :: create_request.
      (\<lparr>http_status = 201, http_headers = [], http_body = Inr () :: error_body + unit\<rparr>,
       [CreateCall ''Deployment'' ''dep-r3''])"
  let ?req = "\<lparr>req_runtimeId = Some ''r3'', req_image = Some ''img:v5''\<rparr>"
  have pre: "req_runtimeId ?req = Some ''r3'' \<and> ''r3'' \<noteq> [] \<and> truthy (req_image ?req)
      \<and> ?up (''dep-'' @ ''r3'') = Returned (warmDeployment ''dep-r3'' True None)"
    by (simp add: truthy_def)
  have p2: "?pending (''dep-'' @ ''r3'') = Returned (warmDeployment ''dep-r3'' True None
        \<lparr>metadata_annotations := [''appwrite.io/status'' \<mapsto> ''pending'']\<rparr>)
      \<and> metadata_annotations (warmDeployment ''dep-r3'' True None
        \<lparr>metadata_annotations := [''appwrite.io/status'' \<mapsto> ''pending'']\<rparr>) ''appwrite.io/status''
        = Some ''pending''"
    by simp
  note inst = C1_duplicate_create [where req = ?req and rid = "''r3''" and readFirst = ?up
      and readSecond = ?pending and proceed = ?rest
      and existing = "warmDeployment ''dep-r3'' True None"
      and current = "warmDeployment ''dep-r3'' True None
        \<lparr>metadata_annotations := [''appwrite.io/status'' \<mapsto> ''pending'']\<rparr>"]
  have a: "http_status (fst (createRuntime ?up ?pending ?rest ?req)) = 409"
    using inst pre by blast
  have b: "conflictMessage (fst (createRuntime ?up ?pending ?rest ?req))
     = Some ''A runtime with the same ID is already being created. Attempt an execution soon.''"
    using inst pre p2 by blast
  have c: "createRuntime ?up ?up ?rest ?req
     = (\<lparr>http_status = 409, http_headers = [],
         http_body = Inl \<lparr>err_type = ''runtime_conflict'', err_message = ''Runtime already exists'',
           err_code = 500\<rparr>\<rparr>,
        [ReadDeployment ''dep-r3'', ReadDeployment ''dep-r3''])"
    by (simp add: createRuntime_def runtimeExists_def getRuntimeStatus_def getDeploymentName_def
        truthy_def orDefault_def createErrorResponse_def RUNTIME_CONFLICT_def warmDeployment_def Let_def)
  have "conflictMessage (fst (createRuntime ?up ?up ?rest ?req)) = Some ''Runtime already exists''"
    using C1_duplicate_create [where req = ?req and rid = "''r3''" and readFirst = ?up
      and readSecond = ?up and proceed = ?rest
      and existing = "warmDeployment ''dep-r3'' True None"
      and current = "warmDeployment ''dep-r3'' True None" and st = "''Up 1s''"] pre
    by (simp add: warmDeployment_def)
  with c have c': "conflictMessage (fst (createRuntime ?up ?up ?rest ?req)) = Some ''Runtime already exists''
      \<and> createRuntime ?up ?up ?rest ?req
     = (\<lparr>http_status = 409, http_headers = [],
         http_body = Inl \<lparr>err_type = ''runtime_conflict'', err_message = ''Runtime already exists'',
           err_code = 500\<rparr>\<rparr>,
        [ReadDeployment ''dep-r3'', ReadDeployment ''dep-r3''])"
    by simp
  show ?thesis using a b c' by simp
qed

section \<open>Cold start (C2)\<close>

lemma pollReady_expired:
  "\<not> t < 60000 \<Longrightarrow> pollReady rd name t = (WindowExpired, [])"
  by (simp add: pollReady.simps [of rd name t] readyTimeout_def)

lemma pollReady_threw:
  "t < 60000 \<Longrightarrow> rd name t = (Threw e, ms) \<Longrightarrow> pollReady rd name t = (PollThrew e, [Polled name t])"
  by (simp add: pollReady.simps [of rd name t] readyTimeout_def)

lemma pollReady_ready:
  "t < 60000 \<Longrightarrow> rd name t = (Returned cur, ms) \<Longrightarrow> status_readyReplicas cur = Some 1 \<Longrightarrow>
     pollReady rd name t = (PodReady, [Polled name t])"
  by (simp add: pollReady.simps [of rd name t] readyTimeout_def)

lemma pollReady_again:
  "t < 60000 \<Longrightarrow> rd name t = (Returned cur, ms) \<Longrightarrow> status_readyReplicas cur \<noteq> Some 1 \<Longrightarrow>
     pollReady rd name t =
       (fst (pollReady rd name (t + ms + 500)),
        Polled name t # Delayed 500 # snd (pollReady rd name (t + ms + 500)))"
  by (simp add: pollReady.simps [of rd name t] readyTimeout_def split: prod.splits)

lemma pollReady_cases:
  obtains "\<not> (t::nat) < 60000"
  | e ms where "t < 60000" "rd name t = (Threw e, ms)"
  | cur ms where "t < 60000" "rd name t = (Returned cur, ms)" "status_readyReplicas cur = Some 1"
  | cur ms where "t < 60000" "rd name t = (Returned cur, ms)" "status_readyReplicas cur \<noteq> Some 1"
proof (cases "t < 60000")
  case False
  then show ?thesis using that by blast
next
  case True
  obtain res ms where r: "rd name t = (res, ms)" by (cases "rd name t")
  show ?thesis
  proof (cases res)
    case (Threw e)
    with True r that show ?thesis by blast
  next
    case (Returned cur)
    with True r that show ?thesis by blast
  qed
qed

lemma pollReady_events:
  "ev \<in> set (snd (pollReady rd name t)) \<Longrightarrow>
     ev = Delayed 500 \<or> (\<exists>s. ev = Polled name s \<and> t \<le> s \<and> s < 60000)"
proof (induction rd name t rule: pollReady.induct)
  case (1 rd name t)
  show ?case
  proof (cases rule: pollReady_cases [where t = t and rd = rd and name = name])
    case 1
    with "1.prems" show ?thesis by (simp add: pollReady_expired)
  next
    case (2 e ms)
    with "1.prems" show ?thesis by (simp add: pollReady_threw)
  next
    case (3 cur ms)
    with "1.prems" show ?thesis by (simp add: pollReady_ready)
  next
    case (4 cur ms)
    have ih: "ev \<in> set (snd (pollReady rd name (t + ms + 500))) \<Longrightarrow>
       ev = Delayed 500 \<or> (\<exists>s. ev = Polled name s \<and> t + ms + 500 \<le> s \<and> s < 60000)"
      using "1.IH" [OF _ 4(2) [symmetric] refl] 4 by (simp add: readyTimeout_def)
    from "1.prems" 4 consider "ev = Polled name t" | "ev = Delayed 500"
      | "ev \<in> set (snd (pollReady rd name (t + ms + 500)))"
      by (auto simp: pollReady_again)
    then show ?thesis
    proof cases
      case 1
      with 4(1) show ?thesis by simp
    next
      case 2
      then show ?thesis by simp
    next
      case 3
      from ih [OF 3] show ?thesis
      proof
        assume "ev = Delayed 500"
        then show ?thesis by simp
      next
        assume "\<exists>s. ev = Polled name s \<and> t + ms + 500 \<le> s \<and> s < 60000"
        then obtain s where "ev = Polled name s" "t + ms + 500 \<le> s" "s < 60000" by blast
        then have "ev = Polled name s \<and> t \<le> s \<and> s < 60000" by simp
        then show ?thesis by blast
      qed
    qed
  qed
qed

lemma pollReady_never_ready:
  "(\<forall>s < 60000. \<exists>cur ms. rd name s = (Returned cur, ms) \<and> status_readyReplicas cur \<noteq> Some 1) \<Longrightarrow>
     fst (pollReady rd name t) = WindowExpired"
proof (induction rd name t rule: pollReady.induct)
  case (1 rd name t)
  show ?case
  proof (cases rule: pollReady_cases [where t = t and rd = rd and name = name])
    case 1
    then show ?thesis by (simp add: pollReady_expired)
  next
    case (2 e ms)
    with "1.prems" show ?thesis by fastforce
  next
    case (3 cur ms)
    with "1.prems" show ?thesis by fastforce
  next
    case (4 cur ms)
    have "fst (pollReady rd name (t + ms + 500)) = WindowExpired"
      using "1.IH" [OF _ 4(2) [symmetric] refl] 4 "1.prems" by (simp add: readyTimeout_def)
    with 4 show ?thesis by (simp add: pollReady_again)
  qed
qed

lemma pollReady_spacing:
  "successively (\<lambda>s s'. s + 500 \<le> s') (List.map_filter pollTime (snd (pollReady rd name t)))
   \<and> (\<forall>s \<in> set (List.map_filter pollTime (snd (pollReady rd name t))). t \<le> s)"
proof (induction rd name t rule: pollReady.induct)
  case (1 rd name t)
  show ?case
  proof (cases rule: pollReady_cases [where t = t and rd = rd and name = name])
    case 1
    then show ?thesis by (simp add: pollReady_expired)
  next
    case (2 e ms)
    then show ?thesis by (simp add: pollReady_threw)
  next
    case (3 cur ms)
    then show ?thesis by (simp add: pollReady_ready)
  next
    case (4 cur ms)
    let ?rest = "List.map_filter pollTime (snd (pollReady rd name (t + ms + 500)))"
    have ih: "successively (\<lambda>s s'. s + 500 \<le> s') ?rest \<and> (\<forall>s \<in> set ?rest. t + ms + 500 \<le> s)"
      using "1.IH" [OF _ 4(2) [symmetric] refl] 4 by (simp add: readyTimeout_def)
    have "successively (\<lambda>s s'. s + 500 \<le> s') (t # ?rest)"
      using ih by (cases ?rest) (auto simp: successively_Cons)
    moreover have "\<forall>s \<in> set (t # ?rest). t \<le> s"
      using ih by auto
    ultimately show ?thesis using 4 by (simp add: pollReady_again)
  qed
qed

lemma pollReady_count:
  "500 * length (List.map_filter pollTime (snd (pollReady rd name t))) \<le> 60499 - t"
proof (induction rd name t rule: pollReady.induct)
  case (1 rd name t)
  show ?case
  proof (cases rule: pollReady_cases [where t = t and rd = rd and name = name])
    case 1
    then show ?thesis by (simp add: pollReady_expired)
  next
    case (2 e ms)
    then show ?thesis by (simp add: pollReady_threw)
  next
    case (3 cur ms)
    then show ?thesis by (simp add: pollReady_ready)
  next
    case (4 cur ms)
    let ?rest = "List.map_filter pollTime (snd (pollReady rd name (t + ms + 500)))"
    have ih: "500 * length ?rest \<le> 60499 - (t + ms + 500)"
      using "1.IH" [OF _ 4(2) [symmetric] refl] 4 by (simp add: readyTimeout_def)
    have "500 * Suc (length ?rest) \<le> 60499 - t"
      using ih 4(1) by simp
    with 4 show ?thesis by (simp add: pollReady_again)
  qed
qed

lemma pollReady_ready_seen:
  "fst (pollReady rd name t) = PodReady \<Longrightarrow>
     \<exists>s cur ms. Polled name s \<in> set (snd (pollReady rd name t)) \<and> rd name s = (Returned cur, ms)
        \<and> status_readyReplicas cur = Some 1"
proof (induction rd name t rule: pollReady.induct)
  case (1 rd name t)
  show ?case
  proof (cases rule: pollReady_cases [where t = t and rd = rd and name = name])
    case 1
    with "1.prems" show ?thesis by (simp add: pollReady_expired)
  next
    case (2 e ms)
    with "1.prems" show ?thesis by (simp add: pollReady_threw)
  next
    case (3 cur ms)
    then show ?thesis by (auto simp: pollReady_ready)
  next
    case (4 cur ms)
    have "fst (pollReady rd name (t + ms + 500)) = PodReady"
      using "1.prems" 4 by (simp add: pollReady_again)
    then have "\<exists>s cur ms'. Polled name s \<in> set (snd (pollReady rd name (t + ms + 500)))
        \<and> rd name s = (Returned cur, ms') \<and> status_readyReplicas cur = Some 1"
      using "1.IH" [OF _ 4(2) [symmetric] refl] 4 by (simp add: readyTimeout_def)
    then show ?thesis using 4 by (auto simp: pollReady_again)
  qed
qed

lemma pollReady_ready_is_seen:
  "Polled name s \<in> set (snd (pollReady rd name t)) \<Longrightarrow> rd name s = (Returned cur, ms) \<Longrightarrow>
     status_readyReplicas cur = Some 1 \<Longrightarrow> fst (pollReady rd name t) = PodReady"
proof (induction rd name t rule: pollReady.induct)
  case (1 rd name t)
  show ?case
  proof (cases rule: pollReady_cases [where t = t and rd = rd and name = name])
    case 1
    with "1.prems" show ?thesis by (simp add: pollReady_expired)
  next
    case (2 e ms')
    with "1.prems" show ?thesis by (simp add: pollReady_threw)
  next
    case (3 cur' ms')
    then show ?thesis by (simp add: pollReady_ready)
  next
    case (4 cur' ms')
    have "s \<noteq> t"
      using 4 "1.prems" by auto
    then have "Polled name s \<in> set (snd (pollReady rd name (t + ms' + 500)))"
      using "1.prems"(1) 4 by (simp add: pollReady_again)
    then have "fst (pollReady rd name (t + ms' + 500)) = PodReady"
      using "1.IH" [OF _ 4(2) [symmetric] refl] 4 "1.prems" by (simp add: readyTimeout_def)
    with 4 show ?thesis by (simp add: pollReady_again)
  qed
qed

lemma pollReady_no_patch: "e \<in> set (snd (pollReady rd name t)) \<Longrightarrow> \<not> isPatched e"
  using pollReady_events [of e rd name t] by auto

lemma coldStart_events:
  "snd (coldStart P R rid d) =
     (if spec_replicas d = None \<or> spec_replicas d = Some 0
      then Patched (getDeploymentName rid) scaleUpPatch #
        (case P (getDeploymentName rid) scaleUpPatch of
           Threw e \<Rightarrow> [] | Returned u \<Rightarrow> snd (pollReady R (getDeploymentName rid) 0))
      else snd (pollReady R (getDeploymentName rid) 0))"
  by (auto simp: coldStart_def Let_def split: api_result.splits prod.splits option.splits)

lemma coldStart_outcome:
  "(spec_replicas d = None \<or> spec_replicas d = Some 0 \<longrightarrow>
      P (getDeploymentName rid) scaleUpPatch = Returned ()) \<Longrightarrow>
   fst (coldStart P R rid d) =
     (case fst (pollReady R (getDeploymentName rid) 0) of
        PodReady \<Rightarrow> Continue
      | PollThrew e \<Rightarrow> Uncaught e
      | WindowExpired \<Rightarrow>
          Respond \<lparr>http_status = 504, http_headers = [],
                   http_body = createErrorResponse RUNTIME_TIMEOUT
                     ''Runtime failed to become ready in time'' None\<rparr>)"
  by (auto simp: coldStart_def Let_def split: api_result.splits prod.splits option.splits)

lemma coldStart_continue:
  "fst (coldStart P R rid d) = Continue \<Longrightarrow>
     fst (pollReady R (getDeploymentName rid) 0) = PodReady
     \<and> set (snd (pollReady R (getDeploymentName rid) 0)) \<subseteq> set (snd (coldStart P R rid d))"
  by (auto simp: coldStart_def Let_def split: api_result.splits prod.splits option.splits
      poll_end.splits if_splits)

lemma coldStart_respond:
  "fst (coldStart P R rid d) = Respond r \<Longrightarrow>
     r = \<lparr>http_status = 504, http_headers = [],
          http_body = createErrorResponse RUNTIME_TIMEOUT
            ''Runtime failed to become ready in time'' None\<rparr>"
  by (auto simp: coldStart_def Let_def split: api_result.splits prod.splits option.splits
      poll_end.splits if_splits)

lemma pollReady_first:
  "t < 60000 \<Longrightarrow> \<exists>rest. List.map_filter pollTime (snd (pollReady rd name t)) = t # rest"
  by (cases rule: pollReady_cases [where t = t and rd = rd and name = name])
    (simp_all add: pollReady_threw pollReady_ready pollReady_again)

lemma pollReady_none:
  "\<not> t < 60000 \<Longrightarrow> List.map_filter pollTime (snd (pollReady rd name t)) = []"
  by (simp add: pollReady_expired)

lemma pollReady_cadence:
  "successively
     (\<lambda>s s'. s' = s + snd (rd name s) + 500
        \<and> (\<exists>cur. fst (rd name s) = Returned cur \<and> status_readyReplicas cur \<noteq> Some 1))
     (List.map_filter pollTime (snd (pollReady rd name t)))"
proof (induction rd name t rule: pollReady.induct)
  case (1 rd name t)
  show ?case
  proof (cases rule: pollReady_cases [where t = t and rd = rd and name = name])
    case 1
    then show ?thesis by (simp add: pollReady_expired)
  next
    case (2 e ms)
    then show ?thesis by (simp add: pollReady_threw)
  next
    case (3 cur ms)
    then show ?thesis by (simp add: pollReady_ready)
  next
    case (4 cur ms)
    let ?n = "t + ms + 500"
    let ?rest = "List.map_filter pollTime (snd (pollReady rd name ?n))"
    have ih: "successively
       (\<lambda>s s'. s' = s + snd (rd name s) + 500
          \<and> (\<exists>cur. fst (rd name s) = Returned cur \<and> status_readyReplicas cur \<noteq> Some 1)) ?rest"
      using "1.IH" [OF _ 4(2) [symmetric] refl] 4 by (simp add: readyTimeout_def)
    show ?thesis
    proof (cases "?n < 60000")
      case False
      with 4 show ?thesis by (simp add: pollReady_again pollReady_expired)
    next
      case True
      from pollReady_first [OF True] obtain rest where r: "?rest = ?n # rest" by blast
      with ih 4 show ?thesis
        by (simp add: pollReady_again successively_Cons)
    qed
  qed
qed

lemma pollReady_last:
  "t < 60000 \<Longrightarrow>
     (case rd name (last (List.map_filter pollTime (snd (pollReady rd name t)))) of
        (Threw e, ms) \<Rightarrow> fst (pollReady rd name t) = PollThrew e
      | (Returned cur, ms) \<Rightarrow>
          if status_readyReplicas cur = Some 1 then fst (pollReady rd name t) = PodReady
          else fst (pollReady rd name t) = WindowExpired
             \<and> \<not> last (List.map_filter pollTime (snd (pollReady rd name t))) + ms + 500 < 60000)"
proof (induction rd name t rule: pollReady.induct)
  case (1 rd name t)
  show ?case
  proof (cases rule: pollReady_cases [where t = t and rd = rd and name = name])
    case 1
    with "1.prems" show ?thesis by simp
  next
    case (2 e ms)
    then show ?thesis by (simp add: pollReady_threw)
  next
    case (3 cur ms)
    then show ?thesis by (simp add: pollReady_ready)
  next
    case (4 cur ms)
    let ?n = "t + ms + 500"
    show ?thesis
    proof (cases "?n < 60000")
      case False
      with 4 show ?thesis by (simp add: pollReady_again pollReady_expired)
    next
      case True
      from pollReady_first [OF True] obtain rest
        where r: "List.map_filter pollTime (snd (pollReady rd name ?n)) = ?n # rest" by blast
      have ih: "(case rd name (last (List.map_filter pollTime (snd (pollReady rd name ?n)))) of
        (Threw e, ms') \<Rightarrow> fst (pollReady rd name ?n) = PollThrew e
      | (Returned cur, ms') \<Rightarrow>
          if status_readyReplicas cur = Some 1 then fst (pollReady rd name ?n) = PodReady
          else fst (pollReady rd name ?n) = WindowExpired
             \<and> \<not> last (List.map_filter pollTime (snd (pollReady rd name ?n))) + ms' + 500 < 60000)"
        using "1.IH" [OF _ 4(2) [symmetric] refl _ True] 4 by (simp add: readyTimeout_def)
      have l: "last (List.map_filter pollTime (snd (pollReady rd name t)))
          = last (List.map_filter pollTime (snd (pollReady rd name ?n)))"
        using 4 r by (simp add: pollReady_again)
      have f: "fst (pollReady rd name t) = fst (pollReady rd name ?n)"
        using 4 by (simp add: pollReady_again)
      show ?thesis unfolding l f using ih .
    qed
  qed
qed

lemma pollReady_shape:
  "snd (pollReady rd name t) =
     concat (map (\<lambda>s. Polled name s #
        (if \<exists>cur. fst (rd name s) = Returned cur \<and> status_readyReplicas cur \<noteq> Some 1
         then [Delayed 500] else []))
       (List.map_filter pollTime (snd (pollReady rd name t))))"
proof (induction rd name t rule: pollReady.induct)
  case (1 rd name t)
  show ?case
  proof (cases rule: pollReady_cases [where t = t and rd = rd and name = name])
    case 1
    then show ?thesis by (simp add: pollReady_expired)
  next
    case (2 e ms)
    then show ?thesis by (simp add: pollReady_threw)
  next
    case (3 cur ms)
    then show ?thesis by (simp add: pollReady_ready)
  next
    case (4 cur ms)
    have ih: "snd (pollReady rd name (t + ms + 500)) =
     concat (map (\<lambda>s. Polled name s #
        (if \<exists>cur. fst (rd name s) = Returned cur \<and> status_readyReplicas cur \<noteq> Some 1
         then [Delayed 500] else []))
       (List.map_filter pollTime (snd (pollReady rd name (t + ms + 500)))))"
      using "1.IH" [OF _ 4(2) [symmetric] refl] 4 by (simp add: readyTimeout_def)
    show ?thesis
      using 4 ih by (simp add: pollReady_again)
  qed
qed

lemma pollTime_polled:
  "s \<in> set (List.map_filter pollTime evs) \<Longrightarrow> \<exists>n. Polled n s \<in> set evs"
proof (induction evs)
  case Nil
  then show ?case by (simp add: List.map_filter_simps)
next
  case (Cons e evs)
  then show ?case by (cases e) (auto simp: List.map_filter_simps)
qed

text \<open>
  C2 (counterexample). A cold runtime whose every read takes 1.6 s and whose pod is
  ready from 58.8 s on. The read begun at 58.8 s reports readiness at 60.4 s: readiness
  was not observed within 60 s, yet the invocation does not fail, it goes on to the proxy.
  The reads begin 2.1 s apart.
\<close>

theorem C2_late_ready_counterexample:
  "fst (coldStart (\<lambda>n b. Returned ()) slowlyReady ''r4''
          (warmDeployment ''dep-r4'' True None\<lparr>spec_replicas := Some 0, status_readyReplicas := None\<rparr>))
     = Continue
   \<and> List.map_filter pollTime (snd (coldStart (\<lambda>n b. Returned ()) slowlyReady ''r4''
          (warmDeployment ''dep-r4'' True None\<lparr>spec_replicas := Some 0, status_readyReplicas := None\<rparr>)))
     = [0, 2100, 4200, 6300, 8400, 10500, 12600, 14700, 16800, 18900, 21000, 23100, 25200,
        27300, 29400, 31500, 33600, 35700, 37800, 39900, 42000, 44100, 46200, 48300, 50400,
        52500, 54600, 56700, 58800]
   \<and> slowlyReady ''dep-r4'' 56700
       = (Returned (warmDeployment ''dep-r4'' True None\<lparr>status_readyReplicas := None\<rparr>), 1600)
   \<and> slowlyReady ''dep-r4'' 58800 = (Returned (warmDeployment ''dep-r4'' True None), 1600)
   \<and> \<not> (58800 + 1600 < (60000 :: nat))"
  by (simp add: coldStart_def getDeploymentName_def slowlyReady_def warmDeployment_def
      pollReady.simps readyTimeout_def Let_def)

text \<open>
  C2 (amended). In the cold-start step of an invocation: when the Deployment has
  \<open>replicas == 0\<close> the first cluster call is the JSON-patch \<open>replace /spec/replicas 1\<close>
  on \<open>dep-{id}\<close> and no other patch follows (a throwing patch ends the step); when it
  has a non-zero \<open>replicas\<close> no patch is issued at all. The Deployment is then polled.
  The first read begins at once; after a read that returns a Deployment which is not ready
  comes a delay of exactly 500 ms, and the next read begins when that delay ends, that is
  500 ms after the previous read returned; nothing else is done. Every read begins less
  than 60 s after the start, so there are at most 120 reads. Polling ends only with a read
  that throws, with a read that reports \<open>readyReplicas == 1\<close> (whenever that read
  returns: the step then goes on to the proxy), or with a read after which the next one
  would begin 60 s or more after the start: then, and only then, the answer is HTTP 504
  with error kind \<open>runtime_timeout\<close>. So the answer is 504 exactly when the patch (if
  issued) returned and none of the reads that were made throws or reports readiness.
\<close>

theorem C2_cold_start:
  "(spec_replicas d = Some 0 \<longrightarrow>
      (\<exists>events. snd (coldStart P R rid d) = Patched (''dep-'' @ rid) scaleUpPatch # events
          \<and> (\<forall>e \<in> set events. \<not> isPatched e)))
   \<and> scaleUpPatch = [\<lparr>patch_op = ''replace'', patch_path = ''/spec/replicas'', patch_value = 1\<rparr>]
   \<and> (spec_replicas d = Some k \<and> k \<noteq> 0 \<longrightarrow>
        (\<forall>e \<in> set (snd (coldStart P R rid d)). \<not> isPatched e))
   \<and> (spec_replicas d = Some 0 \<and> P (''dep-'' @ rid) scaleUpPatch = Threw x \<longrightarrow>
        coldStart P R rid d = (Uncaught x, [Patched (''dep-'' @ rid) scaleUpPatch]))
   \<and> (\<forall>e \<in> set (snd (coldStart P R rid d)).
        e = Patched (''dep-'' @ rid) scaleUpPatch \<or> e = Delayed 500
        \<or> (\<exists>s < 60000. e = Polled (''dep-'' @ rid) s))
   \<and> snd (coldStart P R rid d) =
        (if spec_replicas d = None \<or> spec_replicas d = Some 0
         then [Patched (''dep-'' @ rid) scaleUpPatch] else [])
        @ concat (map (\<lambda>s. Polled (''dep-'' @ rid) s #
             (if \<exists>cur. fst (R (''dep-'' @ rid) s) = Returned cur \<and> status_readyReplicas cur \<noteq> Some 1
              then [Delayed 500] else []))
            (List.map_filter pollTime (snd (coldStart P R rid d))))
   \<and> ((spec_replicas d = None \<or> spec_replicas d = Some 0 \<longrightarrow>
          P (''dep-'' @ rid) scaleUpPatch = Returned ())
       \<longrightarrow> (\<exists>later. List.map_filter pollTime (snd (coldStart P R rid d)) = 0 # later))
   \<and> successively
        (\<lambda>s s'. s' = s + snd (R (''dep-'' @ rid) s) + 500
           \<and> (\<exists>cur. fst (R (''dep-'' @ rid) s) = Returned cur \<and> status_readyReplicas cur \<noteq> Some 1))
        (List.map_filter pollTime (snd (coldStart P R rid d)))
   \<and> successively (\<lambda>s s'. s + 500 \<le> s') (List.map_filter pollTime (snd (coldStart P R rid d)))
   \<and> length (List.map_filter pollTime (snd (coldStart P R rid d))) \<le> 120
   \<and> (List.map_filter pollTime (snd (coldStart P R rid d)) \<noteq> [] \<longrightarrow>
        (case R (''dep-'' @ rid) (last (List.map_filter pollTime (snd (coldStart P R rid d)))) of
           (Threw e, ms) \<Rightarrow> fst (coldStart P R rid d) = Uncaught e
         | (Returned cur, ms) \<Rightarrow>
             if status_readyReplicas cur = Some 1 then fst (coldStart P R rid d) = Continue
             else fst (coldStart P R rid d) =
                    Respond \<lparr>http_status = 504, http_headers = [],
                             http_body = \<lparr>err_type = ''runtime_timeout'',
                               err_message = ''Runtime failed to become ready in time'',
                               err_code = 500\<rparr>\<rparr>
                \<and> \<not> last (List.map_filter pollTime (snd (coldStart P R rid d))) + ms + 500 < 60000))
   \<and> (fst (coldStart P R rid d) = Continue \<longrightarrow>
        (\<exists>s cur ms. Polled (''dep-'' @ rid) s \<in> set (snd (coldStart P R rid d))
           \<and> R (''dep-'' @ rid) s = (Returned cur, ms) \<and> status_readyReplicas cur = Some 1))
   \<and> ((spec_replicas d = None \<or> spec_replicas d = Some 0 \<longrightarrow>
          P (''dep-'' @ rid) scaleUpPatch = Returned ())
        \<and> Polled (''dep-'' @ rid) s \<in> set (snd (coldStart P R rid d))
        \<and> R (''dep-'' @ rid) s = (Returned cur, ms) \<and> status_readyReplicas cur = Some 1
       \<longrightarrow> fst (coldStart P R rid d) = Continue)
   \<and> ((spec_replicas d = None \<or> spec_replicas d = Some 0 \<longrightarrow>
          P (''dep-'' @ rid) scaleUpPatch = Returned ())
        \<and> (\<forall>s. Polled (''dep-'' @ rid) s \<in> set (snd (coldStart P R rid d)) \<longrightarrow>
              (\<exists>cur ms. R (''dep-'' @ rid) s = (Returned cur, ms)
                 \<and> status_readyReplicas cur \<noteq> Some 1))
       \<longrightarrow> fst (coldStart P R rid d) =
             Respond \<lparr>http_status = 504, http_headers = [],
                      http_body = \<lparr>err_type = ''runtime_timeout'',
                        err_message = ''Runtime failed to become ready in time'',
                        err_code = 500\<rparr>\<rparr>)
   \<and> (fst (coldStart P R rid d) = Respond r \<longrightarrow>
        http_status r = 504 \<and> err_type (http_body r) = ''runtime_timeout'')"
proof -
  let ?n = "getDeploymentName rid"
  let ?polls = "snd (pollReady R ?n 0)"
  let ?evs = "snd (coldStart P R rid d)"
  let ?late = "Respond \<lparr>http_status = 504, http_headers = [],
                      http_body = \<lparr>err_type = ''runtime_timeout'',
                        err_message = ''Runtime failed to become ready in time'',
                        err_code = 500\<rparr>\<rparr> :: error_body http_response step"
  let ?busy = "\<lambda>s. \<exists>cur. fst (R ?n s) = Returned cur \<and> status_readyReplicas cur \<noteq> Some 1"
  have n: "?n = ''dep-'' @ rid"
    by (simp add: getDeploymentName_def)
  have shape: "?evs = ?polls \<or> ?evs = Patched ?n scaleUpPatch # ?polls
      \<or> ?evs = [Patched ?n scaleUpPatch]"
    by (auto simp: coldStart_events split: api_result.splits)
  have times: "List.map_filter pollTime ?evs = List.map_filter pollTime ?polls
      \<or> List.map_filter pollTime ?evs = []"
    using shape by auto
  have polled: "List.map_filter pollTime ?evs \<noteq> [] \<longrightarrow>
      List.map_filter pollTime ?evs = List.map_filter pollTime ?polls
      \<and> (spec_replicas d = None \<or> spec_replicas d = Some 0 \<longrightarrow> P ?n scaleUpPatch = Returned ())"
    by (auto simp: coldStart_events split: api_result.splits)
  have first: "spec_replicas d = Some 0 \<longrightarrow>
      (\<exists>events. ?evs = Patched ?n scaleUpPatch # events \<and> (\<forall>e \<in> set events. \<not> isPatched e))"
    using pollReady_no_patch [of _ R ?n 0]
    by (auto simp: coldStart_events split: api_result.splits)
  have patch: "scaleUpPatch = [\<lparr>patch_op = ''replace'', patch_path = ''/spec/replicas'', patch_value = 1\<rparr>]"
    by (simp add: scaleUpPatch_def)
  have warm: "spec_replicas d = Some k \<and> k \<noteq> 0 \<longrightarrow> (\<forall>e \<in> set ?evs. \<not> isPatched e)"
    using pollReady_no_patch [of _ R ?n 0] by (auto simp: coldStart_events)
  have threw: "spec_replicas d = Some 0 \<and> P ?n scaleUpPatch = Threw x \<longrightarrow>
        coldStart P R rid d = (Uncaught x, [Patched ?n scaleUpPatch])"
    by (simp add: coldStart_def Let_def)
  have kinds: "\<forall>e \<in> set ?evs.
        e = Patched ?n scaleUpPatch \<or> e = Delayed 500 \<or> (\<exists>s < 60000. e = Polled ?n s)"
  proof
    fix e assume "e \<in> set ?evs"
    then have "e = Patched ?n scaleUpPatch \<or> e \<in> set ?polls"
      using shape by auto
    then show "e = Patched ?n scaleUpPatch \<or> e = Delayed 500 \<or> (\<exists>s < 60000. e = Polled ?n s)"
      using pollReady_events [of e R ?n 0] by blast
  qed
  have order: "?evs =
        (if spec_replicas d = None \<or> spec_replicas d = Some 0 then [Patched ?n scaleUpPatch] else [])
        @ concat (map (\<lambda>s. Polled ?n s # (if ?busy s then [Delayed 500] else []))
            (List.map_filter pollTime ?evs))"
  proof (cases "spec_replicas d = None \<or> spec_replicas d = Some 0")
    case False
    then have "?evs = ?polls" by (auto simp: coldStart_events)
    with False pollReady_shape [of R ?n 0] show ?thesis by simp
  next
    case True
    show ?thesis
    proof (cases "P ?n scaleUpPatch")
      case (Threw e)
      with True have "?evs = [Patched ?n scaleUpPatch]" by (simp add: coldStart_events)
      with True show ?thesis by simp
    next
      case (Returned u)
      with True have "?evs = Patched ?n scaleUpPatch # ?polls" by (simp add: coldStart_events)
      with True pollReady_shape [of R ?n 0] show ?thesis by simp
    qed
  qed
  have start: "(spec_replicas d = None \<or> spec_replicas d = Some 0 \<longrightarrow> P ?n scaleUpPatch = Returned ())
       \<longrightarrow> (\<exists>later. List.map_filter pollTime ?evs = 0 # later)"
  proof
    assume a: "spec_replicas d = None \<or> spec_replicas d = Some 0 \<longrightarrow> P ?n scaleUpPatch = Returned ()"
    then have "List.map_filter pollTime ?evs = List.map_filter pollTime ?polls"
      by (auto simp: coldStart_events)
    then show "\<exists>later. List.map_filter pollTime ?evs = 0 # later"
      using pollReady_first [of 0 R ?n] by simp
  qed
  have cadence: "successively (\<lambda>s s'. s' = s + snd (R ?n s) + 500 \<and> ?busy s)
        (List.map_filter pollTime ?evs)"
    using times pollReady_cadence [of R ?n 0] by auto
  have spaced: "successively (\<lambda>s s'. s + 500 \<le> s') (List.map_filter pollTime ?evs)"
    using times pollReady_spacing [of R ?n 0] by auto
  have "500 * length (List.map_filter pollTime ?polls) \<le> 60499"
    using pollReady_count [of R ?n 0] by simp
  then have "length (List.map_filter pollTime ?polls) \<le> 120"
    by simp
  then have count: "length (List.map_filter pollTime ?evs) \<le> 120"
    using times by auto
  have final: "List.map_filter pollTime ?evs \<noteq> [] \<longrightarrow>
        (case R ?n (last (List.map_filter pollTime ?evs)) of
           (Threw e, ms) \<Rightarrow> fst (coldStart P R rid d) = Uncaught e
         | (Returned cur, ms) \<Rightarrow>
             if status_readyReplicas cur = Some 1 then fst (coldStart P R rid d) = Continue
             else fst (coldStart P R rid d) = ?late
                \<and> \<not> last (List.map_filter pollTime ?evs) + ms + 500 < 60000)"
  proof
    assume "List.map_filter pollTime ?evs \<noteq> []"
    with polled have eq: "List.map_filter pollTime ?evs = List.map_filter pollTime ?polls"
      and ok: "spec_replicas d = None \<or> spec_replicas d = Some 0 \<longrightarrow> P ?n scaleUpPatch = Returned ()"
      by blast+
    have out: "fst (coldStart P R rid d) =
       (case fst (pollReady R ?n 0) of
          PodReady \<Rightarrow> Continue
        | PollThrew e \<Rightarrow> Uncaught e
        | WindowExpired \<Rightarrow> ?late)"
      using coldStart_outcome [of d P rid R] ok
      by (simp add: createErrorResponse_def RUNTIME_TIMEOUT_def split: poll_end.splits)
    have "0 < (60000::nat)" by simp
    from pollReady_last [OF this, of R ?n] show "case R ?n (last (List.map_filter pollTime ?evs)) of
           (Threw e, ms) \<Rightarrow> fst (coldStart P R rid d) = Uncaught e
         | (Returned cur, ms) \<Rightarrow>
             if status_readyReplicas cur = Some 1 then fst (coldStart P R rid d) = Continue
             else fst (coldStart P R rid d) = ?late
                \<and> \<not> last (List.map_filter pollTime ?evs) + ms + 500 < 60000"
      unfolding eq out by (auto split: prod.splits api_result.splits if_splits)
  qed
  have ready: "fst (coldStart P R rid d) = Continue \<longrightarrow>
        (\<exists>s cur ms. Polled ?n s \<in> set ?evs
           \<and> R ?n s = (Returned cur, ms) \<and> status_readyReplicas cur = Some 1)"
    using coldStart_continue [of P R rid d] pollReady_ready_seen [of R ?n 0] by blast
  have late: "(spec_replicas d = None \<or> spec_replicas d = Some 0 \<longrightarrow>
          P ?n scaleUpPatch = Returned ())
        \<and> Polled ?n s \<in> set ?evs
        \<and> R ?n s = (Returned cur, ms) \<and> status_readyReplicas cur = Some 1
       \<longrightarrow> fst (coldStart P R rid d) = Continue"
  proof
    assume a: "(spec_replicas d = None \<or> spec_replicas d = Some 0 \<longrightarrow>
          P ?n scaleUpPatch = Returned ())
        \<and> Polled ?n s \<in> set ?evs
        \<and> R ?n s = (Returned cur, ms) \<and> status_readyReplicas cur = Some 1"
    then have "Polled ?n s \<in> set ?polls"
      using shape by auto
    with a have "fst (pollReady R ?n 0) = PodReady"
      using pollReady_ready_is_seen [of ?n s R 0 cur ms] by blast
    with a show "fst (coldStart P R rid d) = Continue"
      using coldStart_outcome [of d P rid R] by simp
  qed
  have expiry: "(spec_replicas d = None \<or> spec_replicas d = Some 0 \<longrightarrow>
          P ?n scaleUpPatch = Returned ())
        \<and> (\<forall>s. Polled ?n s \<in> set ?evs \<longrightarrow>
              (\<exists>cur ms. R ?n s = (Returned cur, ms) \<and> status_readyReplicas cur \<noteq> Some 1))
       \<longrightarrow> fst (coldStart P R rid d) = ?late"
  proof
    assume a: "(spec_replicas d = None \<or> spec_replicas d = Some 0 \<longrightarrow>
          P ?n scaleUpPatch = Returned ())
        \<and> (\<forall>s. Polled ?n s \<in> set ?evs \<longrightarrow>
              (\<exists>cur ms. R ?n s = (Returned cur, ms) \<and> status_readyReplicas cur \<noteq> Some 1))"
    from a start obtain later where l: "List.map_filter pollTime ?evs = 0 # later" by blast
    then have ne: "List.map_filter pollTime ?evs \<noteq> []" by simp
    then have "last (List.map_filter pollTime ?evs) \<in> set (List.map_filter pollTime ?evs)"
      by (rule last_in_set)
    then obtain m where "Polled m (last (List.map_filter pollTime ?evs)) \<in> set ?evs"
      using pollTime_polled by blast
    then have "Polled ?n (last (List.map_filter pollTime ?evs)) \<in> set ?evs"
      using kinds by auto
    with a obtain cur ms where "R ?n (last (List.map_filter pollTime ?evs)) = (Returned cur, ms)"
      "status_readyReplicas cur \<noteq> Some 1" by blast
    with final ne show "fst (coldStart P R rid d) = ?late" by simp
  qed
  have only: "fst (coldStart P R rid d) = Respond r \<longrightarrow>
        http_status r = 504 \<and> err_type (http_body r) = ''runtime_timeout''"
    using coldStart_respond [of P R rid d r]
    by (auto simp: createErrorResponse_def RUNTIME_TIMEOUT_def)
  show ?thesis
    unfolding n [symmetric]
    apply (intro conjI)
    using first apply blast
    using patch apply blast
    using warm apply blast
    using threw apply blast
    using kinds apply blast
    using order apply blast
    using start apply blast
    using cadence apply blast
    using spaced apply blast
    using count apply blast
    using final apply blast
    using ready apply blast
    using late apply blast
    using expiry apply blast
    using only apply blast
    done
qed

text \<open>
  C2 (witness): a cold runtime that never becomes ready, and a warm one that is ready at
  the first read (its patch call would throw, and is never made).
\<close>

theorem C2_cold_start_witness:
  "fst (coldStart (\<lambda>n b. Returned ())
          (\<lambda>n s. (Returned (warmDeployment ''dep-r4'' True None\<lparr>spec_replicas := Some 0, status_readyReplicas := None\<rparr>), 100))
          ''r4'' (warmDeployment ''dep-r4'' True None\<lparr>spec_replicas := Some 0, status_readyReplicas := None\<rparr>))
     = Respond \<lparr>http_status = 504, http_headers = [],
                http_body = \<lparr>err_type = ''runtime_timeout'',
                  err_message = ''Runtime failed to become ready in time'', err_code = 500\<rparr>\<rparr>
   \<and> (\<exists>events. snd (coldStart (\<lambda>n b. Returned ())
          (\<lambda>n s. (Returned (warmDeployment ''dep-r4'' True None\<lparr>spec_replicas := Some 0, status_readyReplicas := None\<rparr>), 100))
          ''r4'' (warmDeployment ''dep-r4'' True None\<lparr>spec_replicas := Some 0, status_readyReplicas := None\<rparr>))
        = Patched ''dep-r4'' scaleUpPatch # events)
   \<and> (\<exists>later. List.map_filter pollTime (snd (coldStart (\<lambda>n b. Returned ())
          (\<lambda>n s. (Returned (warmDeployment ''dep-r4'' True None\<lparr>spec_replicas := Some 0, status_readyReplicas := None\<rparr>), 100))
          ''r4'' (warmDeployment ''dep-r4'' True None\<lparr>spec_replicas := Some 0, status_readyReplicas := None\<rparr>)))
        = 0 # later)
   \<and> coldStart (\<lambda>n b. Threw ''unreachable'')
          (\<lambda>n s. (Returned (warmDeployment ''dep-r4'' True None), 20))
          ''r4'' (warmDeployment ''dep-r4'' True None)
     = (Continue, [Polled ''dep-r4'' 0])"
proof -
  let ?cold = "warmDeployment ''dep-r4'' True None\<lparr>spec_replicas := Some 0, status_readyReplicas := None\<rparr>"
  let ?P = "\<lambda>(n::string) (b::json_patch list). Returned ()"
  let ?R = "\<lambda>(n::string) (s::nat). (Returned ?cold, 100::nat)"
  note inst = C2_cold_start [where d = ?cold and P = ?P and R = ?R and rid = "''r4''" and k = 0]
  have r0: "spec_replicas ?cold = Some 0" by (simp add: warmDeployment_def)
  have never: "\<forall>s. Polled (''dep-'' @ ''r4'') s \<in> set (snd (coldStart ?P ?R ''r4'' ?cold)) \<longrightarrow>
      (\<exists>cur ms. ?R (''dep-'' @ ''r4'') s = (Returned cur, ms) \<and> status_readyReplicas cur \<noteq> Some 1)"
    by (simp add: warmDeployment_def)
  have a: "fst (coldStart ?P ?R ''r4'' ?cold)
     = Respond \<lparr>http_status = 504, http_headers = [],
                http_body = \<lparr>err_type = ''runtime_timeout'',
                  err_message = ''Runtime failed to become ready in time'', err_code = 500\<rparr>\<rparr>"
    using inst never by blast
  have "\<exists>events. snd (coldStart ?P ?R ''r4'' ?cold) = Patched ''dep-r4'' scaleUpPatch # events
      \<and> (\<forall>e \<in> set events. \<not> isPatched e)"
    using inst [THEN conjunct1] r0 by simp
  then have b: "\<exists>events. snd (coldStart ?P ?R ''r4'' ?cold) = Patched ''dep-r4'' scaleUpPatch # events"
    by blast
  have b': "\<exists>later. List.map_filter pollTime (snd (coldStart ?P ?R ''r4'' ?cold)) = 0 # later"
    using inst by blast
  let ?warm = "warmDeployment ''dep-r4'' True None"
  have c: "coldStart (\<lambda>n b. Threw ''unreachable'') (\<lambda>n s. (Returned ?warm, 20)) ''r4'' ?warm
     = (Continue, [Polled ''dep-r4'' 0])"
    by (simp add: coldStart_def getDeploymentName_def warmDeployment_def
        pollReady_ready [where cur = ?warm and ms = 20])
  show ?thesis using a b b' c by simp
qed

section \<open>The reaper (C3, C10)\<close>

lemma scaleDownTarget_Some:
  "scaleDownTarget thr now dep = Some n \<longleftrightarrow>
     truthy (metadata_labels dep ''appwrite.io/runtime-id'') \<and> metadata_name dep = Some n \<and> n \<noteq> []
     \<and> spec_replicas dep = Some 1 \<and> isInactive thr now (lastExecutionTimeOf dep)"
  by (auto simp: scaleDownTarget_def Let_def truthy_def split: option.splits)

lemma reapItems_sound:
  "PatchDeployment n b \<in> set (fst (reapItems thr items)) \<Longrightarrow>
     b = scaleDownPatch \<and> (\<exists>(dep, env) \<in> set items. scaleDownTarget thr (dateNow env) dep = Some n)"
proof (induction items)
  case Nil
  then show ?case by simp
next
  case (Cons it items)
  obtain dep env where it: "it = (dep, env)" by (cases it)
  show ?case
  proof (cases "shutdownRequested env")
    case True
    with Cons.prems it show ?thesis by simp
  next
    case False
    show ?thesis
    proof (cases "scaleDownTarget thr (dateNow env) dep")
      case None
      with Cons False it show ?thesis by simp
    next
      case (Some m)
      with Cons False it show ?thesis
        by (cases "patchOutcome env") (auto split: prod.splits)
    qed
  qed
qed

lemma reaper_calls_are_patches:
  "c \<in> set (fst (reapItems thr items)) \<Longrightarrow> \<exists>n. c = PatchDeployment n scaleDownPatch"
  by (induction items) (auto split: if_splits option.splits api_result.splits prod.splits)

lemma reapItems_complete:
  "\<forall>(dep, env) \<in> set items. \<not> shutdownRequested env \<and> patchOutcome env = Returned () \<Longrightarrow>
   reapItems thr items =
     (map (\<lambda>n. PatchDeployment n scaleDownPatch)
        (List.map_filter (\<lambda>(dep, env). scaleDownTarget thr (dateNow env) dep) items), Completed)"
  by (induction items) (auto simp: List.map_filter_simps split: option.splits)

lemma reapItems_reaches:
  assumes "\<forall>(dep, env) \<in> set pre. \<not> shutdownRequested env \<and> patchOutcome env = Returned ()"
    and "\<not> shutdownRequested env" and "scaleDownTarget thr (dateNow env) dep = Some n"
  shows "PatchDeployment n scaleDownPatch \<in> set (fst (reapItems thr (pre @ (dep, env) # post)))"
  using assms
  by (induction pre) (auto split: option.splits api_result.splits prod.splits)

lemmas reaper_eval =
  maintenanceCycle_def scaleDownTarget_def lastExecutionTimeOf_def isInactive_def truthy_def
  warmDeployment_def observedAt_def parseInt_eval

text \<open>
  C3 (counterexample). Three Deployments with one replica each, last executed 999 s
  ago, threshold 300 s, lease held. The first lacks the runtime-id label and is skipped;
  the patch of the second throws, which ends the cycle; the third is never reached. In
  a second cycle shutdown has been requested when the loop reaches the only Deployment.
  The loop does not patch exactly the idle warm Deployments.
\<close>

theorem C3_guard_and_abort_counterexample:
  "spec_replicas (warmDeployment ''dep-a'' False (Some ''1000'')) = Some 1
   \<and> lastExecutionTimeOf (warmDeployment ''dep-a'' False (Some ''1000'')) = Some 1000
   \<and> spec_replicas (warmDeployment ''dep-c'' True (Some ''1000'')) = Some 1
   \<and> lastExecutionTimeOf (warmDeployment ''dep-c'' True (Some ''1000'')) = Some 1000
   \<and> (1000000 - 1000 > (300000 :: int))
   \<and> maintenanceCycle (Some 300000) True
        (Returned
          [(warmDeployment ''dep-a'' False (Some ''1000''), observedAt 1000000 False (Returned ())),
           (warmDeployment ''dep-b'' True (Some ''1000''), observedAt 1000000 False (Threw ''conflict'')),
           (warmDeployment ''dep-c'' True (Some ''1000''), observedAt 1000000 False (Returned ()))])
       = ([PatchDeployment ''dep-b'' scaleDownPatch], Failed ''conflict'')
   \<and> maintenanceCycle (Some 300000) True
        (Returned
          [(warmDeployment ''dep-c'' True (Some ''1000''), observedAt 1000000 True (Returned ()))])
       = ([], Stopped)"
  by (simp add: reaper_eval)

text \<open>
  C3 (amended). In a cycle in which the lease is held, every patch the loop issues is
  \<open>replace /spec/replicas 0\<close> on a listed Deployment that has a name, \<open>replicas == 1\<close>
  and \<open>now - last-execution-time > inactiveThreshold\<close>; when no shutdown is requested
  during the cycle and no patch call throws, the patches issued are exactly those of the
  listed Deployments that carry a non-empty runtime-id label and name, have
  \<open>replicas == 1\<close> and are inactive, in list order. In particular a Deployment whose
  last execution time is within the threshold of now is never scaled down, and one with
  \<open>replicas != 1\<close> is left unchanged.
\<close>

theorem C3_reaper_cycle:
  "(\<forall>c \<in> set (fst (maintenanceCycle thr True (Returned items))).
       \<exists>(dep, env) \<in> set items. \<exists>n.
          c = PatchDeployment n scaleDownPatch \<and> metadata_name dep = Some n
          \<and> spec_replicas dep = Some 1
          \<and> isInactive thr (dateNow env) (lastExecutionTimeOf dep))
   \<and> ((\<forall>(dep, env) \<in> set items. \<not> shutdownRequested env \<and> patchOutcome env = Returned ()) \<longrightarrow>
        maintenanceCycle thr True (Returned items) =
          (map (\<lambda>n. PatchDeployment n scaleDownPatch)
             (List.map_filter (\<lambda>(dep, env). scaleDownTarget thr (dateNow env) dep) items),
           Completed))
   \<and> (scaleDownTarget thr now d = Some n \<longleftrightarrow>
        truthy (metadata_labels d ''appwrite.io/runtime-id'') \<and> metadata_name d = Some n \<and> n \<noteq> []
        \<and> spec_replicas d = Some 1 \<and> isInactive thr now (lastExecutionTimeOf d))
   \<and> (lastExecutionTimeOf d = Some l \<and> now - l \<le> T \<longrightarrow> scaleDownTarget (Some T) now d = None)
   \<and> (spec_replicas d \<noteq> Some 1 \<longrightarrow> scaleDownTarget thr now d = None)
   \<and> scaleDownPatch = [\<lparr>patch_op = ''replace'', patch_path = ''/spec/replicas'', patch_value = 0\<rparr>]"
proof -
  have sound: "\<forall>c \<in> set (fst (maintenanceCycle thr True (Returned items))).
       \<exists>(dep, env) \<in> set items. \<exists>n.
          c = PatchDeployment n scaleDownPatch \<and> metadata_name dep = Some n
          \<and> spec_replicas dep = Some 1
          \<and> isInactive thr (dateNow env) (lastExecutionTimeOf dep)"
  proof
    fix c assume c: "c \<in> set (fst (maintenanceCycle thr True (Returned items)))"
    then have c': "c \<in> set (fst (reapItems thr items))"
      by (simp add: maintenanceCycle_def)
    then obtain n where n: "c = PatchDeployment n scaleDownPatch"
      using reaper_calls_are_patches by blast
    with c' obtain dep env where "(dep, env) \<in> set items"
      and "scaleDownTarget thr (dateNow env) dep = Some n"
      using reapItems_sound [of n scaleDownPatch thr items] by blast
    then show "\<exists>(dep, env) \<in> set items. \<exists>n.
          c = PatchDeployment n scaleDownPatch \<and> metadata_name dep = Some n
          \<and> spec_replicas dep = Some 1
          \<and> isInactive thr (dateNow env) (lastExecutionTimeOf dep)"
      using n scaleDownTarget_Some by blast
  qed
  have complete: "(\<forall>(dep, env) \<in> set items. \<not> shutdownRequested env \<and> patchOutcome env = Returned ()) \<longrightarrow>
        maintenanceCycle thr True (Returned items) =
          (map (\<lambda>n. PatchDeployment n scaleDownPatch)
             (List.map_filter (\<lambda>(dep, env). scaleDownTarget thr (dateNow env) dep) items),
           Completed)"
    using reapItems_complete [of items thr] by (simp add: maintenanceCycle_def)
  have within: "lastExecutionTimeOf d = Some l \<and> now - l \<le> T \<longrightarrow> scaleDownTarget (Some T) now d = None"
    by (simp add: scaleDownTarget_def isInactive_def Let_def)
  have cold: "spec_replicas d \<noteq> Some 1 \<longrightarrow> scaleDownTarget thr now d = None"
    by (simp add: scaleDownTarget_def Let_def)
  have patch: "scaleDownPatch = [\<lparr>patch_op = ''replace'', patch_path = ''/spec/replicas'', patch_value = 0\<rparr>]"
    by (simp add: scaleDownPatch_def)
  show ?thesis
    using sound complete scaleDownTarget_Some [of thr now d n] within cold patch by blast
qed

text \<open>
  C3 (witness): default threshold (300 s); \<open>dep-a\<close> idle for 399 s is patched,
  \<open>dep-b\<close> idle for 200 s and \<open>dep-c\<close> with no replica are not.
\<close>

theorem C3_reaper_cycle_witness:
  "maintenanceCycle (INACTIVE_THRESHOLD None) True
     (Returned
       [(warmDeployment ''dep-a'' True (Some ''1000''), observedAt 400000 False (Returned ())),
        (warmDeployment ''dep-b'' True (Some ''200000''), observedAt 400050 False (Returned ())),
        (warmDeployment ''dep-c'' True (Some ''1000'')\<lparr>spec_replicas := Some 0\<rparr>,
           observedAt 400100 False (Returned ()))])
     = ([PatchDeployment ''dep-a'' scaleDownPatch], Completed)
   \<and> scaleDownTarget (Some 300000) 400050 (warmDeployment ''dep-b'' True (Some ''200000'')) = None
   \<and> scaleDownTarget (Some 300000) 400100
        (warmDeployment ''dep-c'' True (Some ''1000'')\<lparr>spec_replicas := Some 0\<rparr>) = None"
proof -
  let ?a = "warmDeployment ''dep-a'' True (Some ''1000'')"
  let ?b = "warmDeployment ''dep-b'' True (Some ''200000'')"
  let ?c = "warmDeployment ''dep-c'' True (Some ''1000'')\<lparr>spec_replicas := Some 0\<rparr>"
  let ?items = "[(?a, observedAt 400000 False (Returned ())),
        (?b, observedAt 400050 False (Returned ())),
        (?c, observedAt 400100 False (Returned ()))]"
  have thr: "INACTIVE_THRESHOLD None = Some 300000"
    by (simp add: INACTIVE_THRESHOLD_def orDefault_def parseInt_eval)
  have ok: "\<forall>(dep, env) \<in> set ?items. \<not> shutdownRequested env \<and> patchOutcome env = Returned ()"
    by (simp add: observedAt_def)
  have lb: "lastExecutionTimeOf ?b = Some 200000"
    by (simp add: reaper_eval)
  have ta: "scaleDownTarget (Some 300000) 400000 ?a = Some ''dep-a''"
    by (simp add: reaper_eval)
  have tb: "scaleDownTarget (Some 300000) 400050 ?b = None"
    using C3_reaper_cycle [where d = ?b and l = 200000 and now = 400050 and T = 300000] lb by simp
  have tc: "scaleDownTarget (Some 300000) 400100 ?c = None"
    using C3_reaper_cycle [where d = ?c and thr = "Some 300000" and now = 400100] 
    by (simp add: warmDeployment_def)
  have "maintenanceCycle (Some 300000) True (Returned ?items) =
          (map (\<lambda>n. PatchDeployment n scaleDownPatch)
             (List.map_filter (\<lambda>(dep, env). scaleDownTarget (Some 300000) (dateNow env) dep) ?items),
           Completed)"
    using C3_reaper_cycle [where thr = "Some 300000" and items = ?items] ok by blast
  then have "maintenanceCycle (Some 300000) True (Returned ?items)
      = ([PatchDeployment ''dep-a'' scaleDownPatch], Completed)"
    using ta tb tc by (simp add: List.map_filter_simps observedAt_def)
  then show ?thesis using thr tb tc by simp
qed

text \<open>
  C10 (counterexample). Warm runtimes that were never invoked, the current time beyond
  the threshold, the lease held. When shutdown has been requested by the time the loop
  reaches the Deployment, it is not scaled down in that cycle. In a second cycle
  \<open>dep-a\<close> lacks the runtime-id label and is skipped, the patch of \<open>dep-b\<close> throws and
  \<open>dep-c\<close> is never reached.
\<close>

theorem C10_shutdown_counterexample:
  "metadata_annotations (warmDeployment ''dep-a'' True None) ''appwrite.io/last-execution-time'' = None
   \<and> spec_replicas (warmDeployment ''dep-a'' True None) = Some 1
   \<and> (1000000 :: int) > 300000
   \<and> maintenanceCycle (Some 300000) True
        (Returned [(warmDeployment ''dep-a'' True None, observedAt 1000000 True (Returned ()))])
       = ([], Stopped)
   \<and> maintenanceCycle (Some 300000) True
        (Returned
          [(warmDeployment ''dep-a'' False None, observedAt 1000000 False (Returned ())),
           (warmDeployment ''dep-b'' True None, observedAt 1000000 False (Threw ''not found'')),
           (warmDeployment ''dep-c'' True None, observedAt 1000000 False (Returned ()))])
       = ([PatchDeployment ''dep-b'' scaleDownPatch], Failed ''not found'')"
  by (simp add: reaper_eval)

text \<open>
  C10 (amended). A Deployment without last-execution-time annotation is treated as last
  executed at time 0. Consequently, in a cycle in which the lease is held, a listed
  Deployment with \<open>replicas == 1\<close>, no such annotation, a non-empty runtime-id label and
  name, reached at a time beyond the threshold, has the patch of its replicas to 0 issued,
  provided no shutdown was requested up to then and no earlier patch of the cycle threw.
\<close>

theorem C10_never_invoked:
  "(metadata_annotations dep ''appwrite.io/last-execution-time'' = None \<longrightarrow>
      lastExecutionTimeOf dep = Some 0)
   \<and> (metadata_annotations dep ''appwrite.io/last-execution-time'' = None
        \<and> spec_replicas dep = Some 1
        \<and> truthy (metadata_labels dep ''appwrite.io/runtime-id'')
        \<and> metadata_name dep = Some n \<and> n \<noteq> []
        \<and> T < dateNow env \<and> \<not> shutdownRequested env
        \<and> (\<forall>(d, e) \<in> set pre. \<not> shutdownRequested e \<and> patchOutcome e = Returned ())
      \<longrightarrow> PatchDeployment n scaleDownPatch
            \<in> set (fst (maintenanceCycle (Some T) True (Returned (pre @ (dep, env) # post)))))"
proof -
  have zero: "metadata_annotations dep ''appwrite.io/last-execution-time'' = None \<longrightarrow>
      lastExecutionTimeOf dep = Some 0"
    by (simp add: lastExecutionTimeOf_def)
  have patched: "PatchDeployment n scaleDownPatch
            \<in> set (fst (maintenanceCycle (Some T) True (Returned (pre @ (dep, env) # post))))"
    if a: "metadata_annotations dep ''appwrite.io/last-execution-time'' = None"
      and r: "spec_replicas dep = Some 1"
      and l: "truthy (metadata_labels dep ''appwrite.io/runtime-id'')"
      and m: "metadata_name dep = Some n" "n \<noteq> []"
      and t: "T < dateNow env" and s: "\<not> shutdownRequested env"
      and p: "\<forall>(d, e) \<in> set pre. \<not> shutdownRequested e \<and> patchOutcome e = Returned ()"
  proof -
    have "isInactive (Some T) (dateNow env) (lastExecutionTimeOf dep)"
      using a t by (simp add: isInactive_def lastExecutionTimeOf_def)
    then have "scaleDownTarget (Some T) (dateNow env) dep = Some n"
      using r l m by (simp add: scaleDownTarget_Some)
    then show ?thesis
      using reapItems_reaches [OF p s] by (simp add: maintenanceCycle_def)
  qed
  show ?thesis using zero patched by blast
qed

text \<open>
  C10 (witness): \<open>dep-b\<close> was never invoked and is reached after \<open>dep-a\<close>, which is
  still active.
\<close>

theorem C10_never_invoked_witness:
  "lastExecutionTimeOf (warmDeployment ''dep-b'' True None) = Some 0
   \<and> PatchDeployment ''dep-b'' scaleDownPatch
       \<in> set (fst (maintenanceCycle (Some 300000) True
            (Returned
              [(warmDeployment ''dep-a'' True (Some ''350000''), observedAt 400000 False (Returned ())),
               (warmDeployment ''dep-b'' True None, observedAt 400001 False (Threw ''gone''))])))"
proof -
  let ?b = "warmDeployment ''dep-b'' True None"
  let ?pre = "[(warmDeployment ''dep-a'' True (Some ''350000''), observedAt 400000 False (Returned ()))]"
  let ?env = "observedAt 400001 False (Threw ''gone'')"
  note inst = C10_never_invoked [where dep = ?b and n = "''dep-b''" and T = 300000
      and env = ?env and pre = ?pre and post = "[]"]
  have a: "metadata_annotations ?b ''appwrite.io/last-execution-time'' = None"
    by (simp add: warmDeployment_def)
  have h: "spec_replicas ?b = Some 1
        \<and> truthy (metadata_labels ?b ''appwrite.io/runtime-id'')
        \<and> metadata_name ?b = Some ''dep-b'' \<and> ''dep-b'' \<noteq> []
        \<and> 300000 < dateNow ?env \<and> \<not> shutdownRequested ?env
        \<and> (\<forall>(d, e) \<in> set ?pre. \<not> shutdownRequested e \<and> patchOutcome e = Returned ())"
    by (simp add: warmDeployment_def observedAt_def truthy_def)
  show ?thesis using inst a h by simp
qed

section \<open>Cancelling a tail (C4)\<close>

lemma tail_closed_event:
  "\<not> connectionOpen s \<Longrightarrow> tailEvent h s e = s"
  by (cases e) simp_all

lemma tail_closed_stays:
  "\<not> connectionOpen s \<Longrightarrow> foldl (tailEvent h) s evs = s"
  by (induction evs) (simp_all add: tail_closed_event)

lemma tail_foldl_onData:
  "connectionOpen s \<Longrightarrow>
   onData_calls (foldl (tailEvent h) s evs)
     = onData_calls s @ List.map_filter stdoutOf (takeWhile (\<lambda>e. e \<noteq> ConnectionClosed) evs)"
proof (induction evs arbitrary: s)
  case Nil
  show ?case by simp
next
  case (Cons e evs)
  show ?case
  proof (cases e)
    case ConnectionClosed
    then show ?thesis by (simp add: tail_closed_stays)
  qed (use Cons in simp_all)
qed

lemma tail_foldl_open:
  "connectionOpen (foldl (tailEvent h) s evs) = (connectionOpen s \<and> ConnectionClosed \<notin> set evs)"
proof (induction evs arbitrary: s)
  case Nil
  show ?case by simp
next
  case (Cons e evs)
  show ?case by (cases e) (auto simp: Cons.IH)
qed

text \<open>
  C4 (counterexample). After the cleanup function has returned the connection is still
  open, and a stdout chunk delivered then is passed to \<open>onData\<close> like any other.
\<close>

theorem C4_chunk_after_cancel_counterexample:
  "onData_calls (tailFileInPod True [StdoutChunk ''0.1 5'', CleanupCalled, StdoutChunk ''0.2 7''])
     = [''0.1 5'', ''0.2 7'']
   \<and> connectionOpen (tailFileInPod True [StdoutChunk ''0.1 5'', CleanupCalled])"
  by (simp add: tailFileInPod_def)

text \<open>
  C4 (amended). The cleanup function returned by \<open>tailFileInPod\<close> does nothing: calling
  it changes no later call of \<open>onData\<close> or \<open>onError\<close> and leaves the connection as
  it was. The connection is open exactly as long as it has not closed by itself, and the
  chunks passed to \<open>onData\<close> are all the stdout chunks delivered before that, in order,
  whether the cleanup function was called before them or not.
\<close>

theorem C4_cancel_is_noop:
  "tailFileInPod h (before @ CleanupCalled # after) = tailFileInPod h (before @ after)
   \<and> connectionOpen (tailFileInPod h (before @ [CleanupCalled]))
       = connectionOpen (tailFileInPod h before)
   \<and> connectionOpen (tailFileInPod h events) = (ConnectionClosed \<notin> set events)
   \<and> onData_calls (tailFileInPod h events)
       = List.map_filter stdoutOf (takeWhile (\<lambda>e. e \<noteq> ConnectionClosed) events)"
  by (simp add: tailFileInPod_def tail_foldl_onData tail_foldl_open)

section \<open>Waiting for the pod to listen (C5)\<close>

lemma listenLoop_closed:
  "\<not> of_nat t < timeout * 1000 \<Longrightarrow> listenLoop fetch url timeout t = (False, [])"
  by (simp add: listenLoop.simps [of fetch url timeout t])

lemma listenLoop_answered:
  "of_nat t < timeout * 1000 \<Longrightarrow> answered (fetch url t) \<Longrightarrow>
     listenLoop fetch url timeout t = (True, [(t, fetch url t)])"
  by (simp add: listenLoop.simps [of fetch url timeout t])

lemma listenLoop_retry:
  "of_nat t < timeout * 1000 \<Longrightarrow> \<not> answered (fetch url t) \<Longrightarrow>
     listenLoop fetch url timeout t =
       (fst (listenLoop fetch url timeout (t + attemptDuration (fetch url t) + 500)),
        (t, fetch url t) # snd (listenLoop fetch url timeout (t + attemptDuration (fetch url t) + 500)))"
  by (simp add: listenLoop.simps [of fetch url timeout t] Let_def split: prod.splits)

lemma listenLoop_iff:
  "fst (listenLoop fetch url timeout t) \<longleftrightarrow>
     (\<exists>(s, out) \<in> set (snd (listenLoop fetch url timeout t)). answered out)"
proof (induction fetch url timeout t rule: listenLoop.induct)
  case (1 fetch url timeout elapsed)
  show ?case
  proof (cases "of_nat elapsed < timeout * 1000")
    case False
    then show ?thesis by (simp add: listenLoop_closed)
  next
    case True
    show ?thesis
    proof (cases "answered (fetch url elapsed)")
      case a: True
      with True show ?thesis by (simp add: listenLoop_answered)
    next
      case a: False
      with True 1 [OF True refl a] show ?thesis
        by (simp add: listenLoop_retry)
    qed
  qed
qed

lemma listenLoop_window:
  "(s, out) \<in> set (snd (listenLoop fetch url timeout t)) \<Longrightarrow>
     of_nat s < timeout * 1000 \<and> out = fetch url s \<and> t \<le> s"
proof (induction fetch url timeout t rule: listenLoop.induct)
  case (1 fetch url timeout elapsed)
  show ?case
  proof (cases "of_nat elapsed < timeout * 1000")
    case False
    with 1(2) show ?thesis by (simp add: listenLoop_closed)
  next
    case True
    show ?thesis
    proof (cases "answered (fetch url elapsed)")
      case a: True
      with True 1(2) show ?thesis by (simp add: listenLoop_answered)
    next
      case a: False
      with True 1(1) [OF True refl a] 1(2) show ?thesis
        by (auto simp: listenLoop_retry)
    qed
  qed
qed

lemma listenLoop_spacing:
  "successively (\<lambda>(s, out) (s', out'). \<not> answered out \<and> s' = s + attemptDuration out + 500)
     (snd (listenLoop fetch url timeout t))"
proof (induction fetch url timeout t rule: listenLoop.induct)
  case (1 fetch url timeout elapsed)
  show ?case
  proof (cases "of_nat elapsed < timeout * 1000")
    case False
    then show ?thesis by (simp add: listenLoop_closed)
  next
    case True
    show ?thesis
    proof (cases "answered (fetch url elapsed)")
      case a: True
      with True show ?thesis by (simp add: listenLoop_answered)
    next
      case a: False
      let ?n = "elapsed + attemptDuration (fetch url elapsed) + 500"
      have ih: "successively (\<lambda>(s, out) (s', out'). \<not> answered out \<and> s' = s + attemptDuration out + 500)
         (snd (listenLoop fetch url timeout ?n))"
        using 1 [OF True refl a] .
      show ?thesis
      proof (cases "of_nat ?n < timeout * 1000")
        case False
        with True a show ?thesis by (simp add: listenLoop_retry listenLoop_closed)
      next
        case n: True
        have "\<exists>rest. snd (listenLoop fetch url timeout ?n) = (?n, fetch url ?n) # rest"
          using n by (cases "answered (fetch url ?n)") (simp_all add: listenLoop_answered listenLoop_retry)
        then obtain rest where r: "snd (listenLoop fetch url timeout ?n) = (?n, fetch url ?n) # rest" ..
        with ih True a show ?thesis
          by (simp add: listenLoop_retry [of elapsed timeout fetch url] successively_Cons)
      qed
    qed
  qed
qed

lemma answered_recode [simp]: "answered (recode f out) = answered out"
  by (cases out) simp_all

lemma attemptDuration_recode [simp]: "attemptDuration (recode f out) = attemptDuration out"
  by (cases out) simp_all

lemma listenLoop_status_blind:
  "fst (listenLoop (\<lambda>u s. recode f (fetch u s)) url timeout t) = fst (listenLoop fetch url timeout t)"
proof (induction fetch url timeout t rule: listenLoop.induct)
  case (1 fetch url timeout elapsed)
  show ?case
  proof (cases "of_nat elapsed < timeout * 1000")
    case False
    then show ?thesis by (simp add: listenLoop_closed)
  next
    case True
    show ?thesis
    proof (cases "answered (fetch url elapsed)")
      case a: True
      with True show ?thesis by (simp add: listenLoop_answered)
    next
      case a: False
      with True 1 [OF True refl a] show ?thesis
        by (simp add: listenLoop_retry)
    qed
  qed
qed

lemma listenLoop_nonempty:
  "snd (listenLoop fetch url timeout t) = [] \<longleftrightarrow> \<not> of_nat t < timeout * 1000"
  by (cases "of_nat t < timeout * 1000"; cases "answered (fetch url t)")
    (simp_all add: listenLoop_closed listenLoop_answered listenLoop_retry)

lemma listenLoop_last:
  "snd (listenLoop fetch url timeout t) \<noteq> [] \<Longrightarrow>
     answered (snd (last (snd (listenLoop fetch url timeout t))))
     \<or> \<not> of_nat (fst (last (snd (listenLoop fetch url timeout t)))
            + attemptDuration (snd (last (snd (listenLoop fetch url timeout t)))) + 500)
          < timeout * 1000"
proof (induction fetch url timeout t rule: listenLoop.induct)
  case (1 fetch url timeout elapsed)
  show ?case
  proof (cases "of_nat elapsed < timeout * 1000")
    case False
    with "1.prems" show ?thesis by (simp add: listenLoop_closed)
  next
    case True
    show ?thesis
    proof (cases "answered (fetch url elapsed)")
      case a: True
      with True show ?thesis by (simp add: listenLoop_answered)
    next
      case a: False
      let ?n = "elapsed + attemptDuration (fetch url elapsed) + 500"
      show ?thesis
      proof (cases "snd (listenLoop fetch url timeout ?n) = []")
        case e: True
        then have "\<not> of_nat ?n < timeout * 1000"
          by (simp add: listenLoop_nonempty)
        with True a e show ?thesis
          by (simp add: listenLoop_retry [of elapsed timeout fetch url])
      next
        case e: False
        with True a "1.IH" [OF True refl a e] show ?thesis
          by (simp add: listenLoop_retry [of elapsed timeout fetch url])
      qed
    qed
  qed
qed

text \<open>
  C5 (counterexample). With a window of 1 s, an attempt begun at once and answered after
  1.5 s makes \<open>checkPodListening\<close> return true, although no response was received within
  the window.
\<close>

theorem C5_late_answer_counterexample:
  "checkPodListening (\<lambda>url s. Responded 503 1500) ''10.0.0.7'' 1
   \<and> listenAttempts (\<lambda>url s. Responded 503 1500) ''10.0.0.7'' 1 = [(0, Responded 503 1500)]
   \<and> \<not> (of_nat (0 + 1500) < (1 :: rat) * 1000)"
  by (simp add: checkPodListening_def listenAttempts_def listenLoop_answered)

text \<open>
  C5 (amended). \<open>checkPodListening\<close> returns true if and only if one of its attempts is
  answered before that attempt's 2 s deadline. Every attempt is a GET to
  \<open>http://{podIP}:3000\<close> begun while the window is open (the answer may arrive after the
  window has closed); an attempt is made only after the previous one failed, 500 ms after
  that failure, and no attempt lasts more than 2 s. The status code of an answer plays no
  part in the verdict. The loop goes on until an attempt is answered or the next attempt
  would begin with the window closed; then the result is false, at once and with no
  attempt at all when the timeout is not positive.
\<close>

theorem C5_wait_listening:
  "checkPodListening fetch podIP timeout
     = (\<exists>(s, out) \<in> set (listenAttempts fetch podIP timeout). answered out)
   \<and> (\<forall>(s, out) \<in> set (listenAttempts fetch podIP timeout).
        of_nat s < timeout * 1000 \<and> out = fetch (''http://'' @ podIP @ '':3000'') s)
   \<and> successively (\<lambda>(s, out) (s', out'). \<not> answered out \<and> s' = s + attemptDuration out + 500)
        (listenAttempts fetch podIP timeout)
   \<and> attemptDuration out \<le> 2000
   \<and> checkPodListening (\<lambda>url s. recode f (fetch url s)) podIP timeout
       = checkPodListening fetch podIP timeout
   \<and> (listenAttempts fetch podIP timeout = [] \<longleftrightarrow> timeout \<le> 0)
   \<and> (listenAttempts fetch podIP timeout \<noteq> [] \<longrightarrow>
        answered (snd (last (listenAttempts fetch podIP timeout)))
        \<or> \<not> of_nat (fst (last (listenAttempts fetch podIP timeout))
               + attemptDuration (snd (last (listenAttempts fetch podIP timeout))) + 500)
             < timeout * 1000)
   \<and> (timeout \<le> 0 \<longrightarrow> \<not> checkPodListening fetch podIP timeout)"
proof -
  let ?url = "''http://'' @ podIP @ '':3000''"
  have iff: "checkPodListening fetch podIP timeout
     = (\<exists>(s, out) \<in> set (listenAttempts fetch podIP timeout). answered out)"
    using listenLoop_iff [of fetch ?url timeout 0]
    by (simp add: checkPodListening_def listenAttempts_def)
  have window: "\<forall>(s, out) \<in> set (listenAttempts fetch podIP timeout).
        of_nat s < timeout * 1000 \<and> out = fetch ?url s"
    using listenLoop_window [of _ _ fetch ?url timeout 0]
    by (auto simp: listenAttempts_def)
  have spaced: "successively (\<lambda>(s, out) (s', out'). \<not> answered out \<and> s' = s + attemptDuration out + 500)
        (listenAttempts fetch podIP timeout)"
    using listenLoop_spacing [of fetch ?url timeout 0] by (simp add: listenAttempts_def)
  have deadline: "attemptDuration out \<le> 2000"
    by (cases out) simp_all
  have blind: "checkPodListening (\<lambda>url s. recode f (fetch url s)) podIP timeout
       = checkPodListening fetch podIP timeout"
    using listenLoop_status_blind [of f fetch ?url timeout 0] by (simp add: checkPodListening_def)
  have closed: "timeout \<le> 0 \<longrightarrow> \<not> checkPodListening fetch podIP timeout"
  proof
    assume "timeout \<le> 0"
    then have "\<not> of_nat 0 < timeout * 1000" by simp
    then show "\<not> checkPodListening fetch podIP timeout"
      by (simp add: checkPodListening_def listenLoop_closed)
  qed
  have none: "listenAttempts fetch podIP timeout = [] \<longleftrightarrow> timeout \<le> 0"
    using listenLoop_nonempty [of fetch ?url timeout 0]
    by (simp add: listenAttempts_def not_less)
  have final: "listenAttempts fetch podIP timeout \<noteq> [] \<longrightarrow>
        answered (snd (last (listenAttempts fetch podIP timeout)))
        \<or> \<not> of_nat (fst (last (listenAttempts fetch podIP timeout))
               + attemptDuration (snd (last (listenAttempts fetch podIP timeout))) + 500)
             < timeout * 1000"
    using listenLoop_last [of fetch ?url timeout 0] by (simp add: listenAttempts_def)
  show ?thesis using iff window spaced deadline blind closed none final by blast
qed

text \<open>
  C5 (witness): a pod that refuses connections during the first second and then answers
  404; and a window of 0 s.
\<close>

theorem C5_wait_listening_witness:
  "listenAttempts (\<lambda>url s. if s < 1000 then Rejected 10 else Responded 404 30) ''10.0.0.7'' 15
     = [(0, Rejected 10), (510, Rejected 10), (1020, Responded 404 30)]
   \<and> checkPodListening (\<lambda>url s. if s < 1000 then Rejected 10 else Responded 404 30) ''10.0.0.7'' 15
   \<and> \<not> checkPodListening (\<lambda>url s. Responded 200 5) ''10.0.0.7'' 0"
proof -
  let ?fetch = "\<lambda>(url::string) (s::nat). if s < 1000 then Rejected 10 else Responded 404 30"
  have a: "listenAttempts ?fetch ''10.0.0.7'' 15
     = [(0, Rejected 10), (510, Rejected 10), (1020, Responded 404 30)]"
    by (simp add: listenAttempts_def listenLoop_retry listenLoop_answered)
  have b: "checkPodListening ?fetch ''10.0.0.7'' 15"
    using C5_wait_listening [where fetch = ?fetch and podIP = "''10.0.0.7''" and timeout = 15
        and out = "Rejected 10" and f = id] a
    by simp
  have c: "\<not> checkPodListening (\<lambda>url s. Responded 200 5) ''10.0.0.7'' 0"
    using C5_wait_listening [where fetch = "\<lambda>url s. Responded 200 5" and podIP = "''10.0.0.7''"
        and timeout = 0 and out = "Rejected 10" and f = id]
    by blast
  show ?thesis using a b c by simp
qed

section \<open>Surfaced response headers (C6)\<close>

lemmas headers_eval = collectHeaders_def collectHeader_def toLowerCase_def toLowerCaseChar_def
  startsWith_def char_of_def bit_Suc_0_iff

text \<open>
  What holds of every response: surfaced keys are lowercased and none is internal, and a
  response format that precedes \<open>0.11.0\<close> leaves no list-valued header.
\<close>

lemma toLowerCaseChar_idem: "toLowerCaseChar (toLowerCaseChar c) = toLowerCaseChar c"
  by (auto simp: toLowerCaseChar_def Let_def)

lemma toLowerCase_idem: "toLowerCase (toLowerCase s) = toLowerCase s"
  by (simp add: toLowerCase_def toLowerCaseChar_idem)

lemma collectHeader_keys:
  assumes "\<forall>k \<in> fst ` set hs. surfacedKey k"
  shows "\<forall>k \<in> fst ` set (collectHeader hs kv). surfacedKey k"
proof -
  obtain key v where kv: "kv = (key, v)" by (cases kv)
  show ?thesis
  proof (cases "startsWith (toLowerCase key) ''x-open-runtimes-''")
    case True
    with assms kv show ?thesis by (simp add: collectHeader_def)
  next
    case False
    then have good: "surfacedKey (toLowerCase key)"
      by (simp add: surfacedKey_def toLowerCase_idem)
    have "fst ` set (collectHeader hs kv) = insert (toLowerCase key) (fst ` set hs)"
      using False kv
      by (simp add: collectHeader_def Let_def AList.dom_update
          split: option.split header_value.split)
    with assms good show ?thesis by simp
  qed
qed

lemma collectHeaders_keys_from:
  "\<forall>k \<in> fst ` set hs. surfacedKey k \<Longrightarrow>
     \<forall>k \<in> fst ` set (foldl collectHeader hs received). surfacedKey k"
proof (induction received arbitrary: hs)
  case Nil
  then show ?case by simp
next
  case (Cons kv received)
  show ?case
    using Cons.IH [OF collectHeader_keys [OF Cons.prems, of kv]] by simp
qed

lemma collectHeaders_keys:
  "(k, v) \<in> set (collectHeaders received) \<Longrightarrow>
     toLowerCase k = k \<and> \<not> startsWith k ''x-open-runtimes-''"
  using collectHeaders_keys_from [of "[]" received]
  by (force simp: collectHeaders_def surfacedKey_def)

lemma compatibleHeaders_single:
  "stringLess (orDefault formatHeader ''0.10.0'') ''0.11.0'' \<Longrightarrow>
   compatibleHeaders formatHeader headers =
     map (\<lambda>(key, value).
            (key, case value of Multi values \<Rightarrow> Single (if values = [] then [] else last values)
                  | Single v \<Rightarrow> Single v)) headers"
  by (simp add: compatibleHeaders_def)

text \<open>
  C6. The claim asks that a header name occurring more than once be surfaced as the list
  of its values, oldest first. The handler does so when the value already stored is not
  empty (second equation), but when the first value of the name is the empty string the
  later value replaces it and a single string is surfaced (first equation).
\<close>

theorem C6_empty_first_value:
  "collectHeaders [(''set-cookie'', ''''), (''set-cookie'', ''a=1'')] = [(''set-cookie'', Single ''a=1'')]
   \<and> collectHeaders [(''set-cookie'', ''a=1''), (''set-cookie'', ''b=2'')]
       = [(''set-cookie'', Multi [''a=1'', ''b=2''])]"
  by (simp add: headers_eval)

section \<open>Log truncation (C8)\<close>

text \<open>
  What the handler does with each file, for every content: the test and the cut count the
  code units of the decoded text. The logs come from \<open>/mnt/logs/{logId}_logs.log\<close> and
  the errors from \<open>/mnt/logs/{logId}_errors.log\<close> of the runtime container, and a file
  that cannot be read yields the empty string. On a text of code units below 128 the code
  units are the bytes of the file.
\<close>

lemma limitLogSize_code_units:
  "(length content \<le> 1048576 \<longrightarrow> limitLogSize kind content = content)
   \<and> (length content > 1048576 \<longrightarrow>
        limitLogSize kind content
          = take 1048576 content @ [CHR 0x0A] @ kind @ '' file has been truncated to 1.00MB.''
        \<and> length (take 1048576 content) = 1048576)
   \<and> (podName = Some pod \<and> pod \<noteq> [] \<and> logId \<noteq> [] \<longrightarrow>
        fst (extractLogs rd ''v5'' logId True podName)
          = (case rd pod ''runtime-container'' (''/mnt/logs/'' @ logId @ ''_logs.log'') of
               Returned c \<Rightarrow> limitLogSize ''Log'' c | Threw e \<Rightarrow> [])
        \<and> snd (extractLogs rd ''v5'' logId True podName)
          = (case rd pod ''runtime-container'' (''/mnt/logs/'' @ logId @ ''_errors.log'') of
               Returned c \<Rightarrow> limitLogSize ''Error'' c | Threw e \<Rightarrow> []))"
  by (auto simp: limitLogSize_def MAX_LOG_SIZE_def extractLogs_def truthy_def orDefault_def Let_def)

lemma utf8Length_ascii:
  "\<forall>c \<in> set content. (of_char c :: nat) < 128 \<Longrightarrow> utf8Length content = length content"
  by (induction content) (simp_all add: utf8Length_def)

text \<open>
  C8. The claim asks for a limit of 1048576 bytes, which is what the handler announces
  (\<open>Limit log size to 1MB\<close>, \<open>truncated to 1.00MB\<close>). The handler compares and cuts the
  code units of the decoded text instead. A log file of 524289 letters e-acute (U+00E9,
  two bytes in UTF-8, one code unit) is 1048578 bytes long, more than the limit, and is
  surfaced whole with no notice; of a file of 1048577 such letters 1048576 letters are
  kept, which are 2097152 bytes. On a file of 1048577 letters \<open>a\<close>, code and claim agree.
\<close>

theorem C8_two_byte_characters:
  "utf8Length (replicate 524289 (CHR 0xE9)) = 1048578
   \<and> 1048578 > MAX_LOG_SIZE
   \<and> limitLogSize ''Log'' (replicate 524289 (CHR 0xE9)) = replicate 524289 (CHR 0xE9)
   \<and> extractLogs (\<lambda>pod container file.
          if file = ''/mnt/logs/abc_logs.log'' then Returned (replicate 524289 (CHR 0xE9))
          else Threw ''No such file'') ''v5'' ''abc'' True (Some ''pod-1'')
       = (replicate 524289 (CHR 0xE9), [])
   \<and> limitLogSize ''Log'' (replicate 1048577 (CHR 0xE9))
       = replicate 1048576 (CHR 0xE9) @ [CHR 0x0A] @ ''Log file has been truncated to 1.00MB.''
   \<and> utf8Length (replicate 1048576 (CHR 0xE9)) = 2097152
   \<and> limitLogSize ''Log'' (replicate 1048577 (CHR ''a''))
       = replicate 1048576 (CHR ''a'') @ [CHR 0x0A] @ ''Log file has been truncated to 1.00MB.''
   \<and> utf8Length (replicate 1048576 (CHR ''a'')) = 1048576"
  by (simp add: utf8Length_def limitLogSize_def MAX_LOG_SIZE_def sum_list_replicate
      extractLogs_def truthy_def orDefault_def Let_def)

section \<open>The page limit (C9)\<close>

lemma listLimit_range: "1 \<le> listLimit q \<and> listLimit q \<le> 100"
  by (simp add: listLimit_def Let_def split: option.split)

text \<open>
  C9 (counterexample). The limit is not the clamp of the parameter to [1, 100]: the
  query \<open>limit=0\<close> parses to 0, whose clamp is 1, and the handler uses 25.
\<close>

theorem C9_limit_zero_counterexample:
  "parseInt ''0'' = Some 0 \<and> clampTo 1 100 0 = 1 \<and> listLimit (Some ''0'') = 25
   \<and> listLimit (Some ''0'') \<noteq> clampTo 1 100 0"
  by (simp add: listLimit_def clampTo_def parseInt_eval)

text \<open>
  C9 (amended). The effective limit is 25 when the parameter is absent, empty, not a
  number or not positive; a parsed value from 1 to 100 is used as it is and every parsed
  value above 100 yields 100. The limit always lies in [1, 100], it is the limit passed
  to the cluster, and on success the X-PAGINATION-LIMIT header is its decimal rendering.
\<close>

theorem C9_page_limit:
  "listLimit None = 25
   \<and> (parseInt p = None \<longrightarrow> listLimit (Some p) = 25)
   \<and> (parseInt p = Some n \<and> n \<le> 0 \<longrightarrow> listLimit (Some p) = 25)
   \<and> (parseInt p = Some n \<and> 1 \<le> n \<and> n \<le> 100 \<longrightarrow> listLimit (Some p) = n)
   \<and> (parseInt p = Some n \<and> 100 < n \<longrightarrow> listLimit (Some p) = 100)
   \<and> 1 \<le> listLimit q \<and> listLimit q \<le> 100
   \<and> (k8sList (listLimit q) cont = Returned page \<longrightarrow>
        map_of (http_headers (listRuntimes k8sList project q cont)) ''X-PAGINATION-LIMIT''
          = Some (toString (listLimit q)))"
proof -
  have absent: "listLimit None = 25"
    by (simp add: listLimit_def)
  have nan: "parseInt p = None \<longrightarrow> listLimit (Some p) = 25"
    by (simp add: listLimit_def)
  have nonpos: "parseInt p = Some n \<and> n \<le> 0 \<longrightarrow> listLimit (Some p) = 25"
    by (simp add: listLimit_def)
  have empty: "parseInt [] = None"
    by (simp add: parseInt_def)
  have inside: "parseInt p = Some n \<and> 1 \<le> n \<and> n \<le> 100 \<longrightarrow> listLimit (Some p) = n"
    using empty by (auto simp: listLimit_def)
  have above: "parseInt p = Some n \<and> 100 < n \<longrightarrow> listLimit (Some p) = 100"
    using empty by (auto simp: listLimit_def)
  have header: "k8sList (listLimit q) cont = Returned page \<longrightarrow>
      map_of (http_headers (listRuntimes k8sList project q cont)) ''X-PAGINATION-LIMIT''
        = Some (toString (listLimit q))"
    by (simp add: listRuntimes_def Let_def)
  show ?thesis
    using absent nan nonpos inside above header listLimit_range [of q] by blast
qed

text \<open>
  C9 (witness): the parameters \<open>abc\<close>, \<open>-3\<close>, \<open>42\<close> and \<open>250\<close>.
\<close>

theorem C9_page_limit_witness:
  "parseInt ''abc'' = None \<and> listLimit (Some ''abc'') = 25
   \<and> parseInt ''-3'' = Some (- 3) \<and> listLimit (Some ''-3'') = 25
   \<and> parseInt ''42'' = Some 42 \<and> listLimit (Some ''42'') = 42
   \<and> parseInt ''250'' = Some 250 \<and> listLimit (Some ''250'') = 100
   \<and> map_of (http_headers (listRuntimes
          (\<lambda>l c. Returned \<lparr>list_items = [], list_continue = None, list_remainingItemCount = None\<rparr>)
          (\<lambda>d. ()) (Some ''250'') None)) ''X-PAGINATION-LIMIT'' = Some ''100''"
proof -
  let ?page = "\<lparr>list_items = [], list_continue = None, list_remainingItemCount = None\<rparr>"
  let ?k8s = "\<lambda>(l::int) (c::string option). Returned ?page"
  note inst = C9_page_limit [where q = "Some ''250''" and k8sList = ?k8s and cont = None
      and page = ?page and project = "\<lambda>d. ()"]
  have a: "parseInt ''abc'' = None" by (simp add: parseInt_eval)
  have b: "parseInt ''-3'' = Some (- 3)" by (simp add: parseInt_eval)
  have c: "parseInt ''42'' = Some 42" by (simp add: parseInt_eval)
  have d: "parseInt ''250'' = Some 250" by (simp add: parseInt_eval)
  have s: "toString 100 = ''100''" by (simp add: toString_def)
  have l1: "listLimit (Some ''abc'') = 25"
    using inst [where p = "''abc''" and n = 0] a by simp
  have l2: "listLimit (Some ''-3'') = 25"
    using inst [where p = "''-3''" and n = "- 3"] b by simp
  have l3: "listLimit (Some ''42'') = 42"
    using inst [where p = "''42''" and n = 42] c by simp
  have l4: "listLimit (Some ''250'') = 100"
    using inst [where p = "''250''" and n = 250] d by simp
  have h: "map_of (http_headers (listRuntimes ?k8s (\<lambda>d. ()) (Some ''250'') None))
      ''X-PAGINATION-LIMIT'' = Some ''100''"
    using inst [where p = "''250''" and n = 250] l4 s by simp
  show ?thesis
    using a b c d l1 l2 l3 l4 h by simp
qed

end
